theory Spec2Isabelle
  imports Main
begin

section \<open>The schema of \<open>pyfi/db/model/models.py\<close>\<close>

text \<open>
  The module declares a relational schema: classes with \<open>Column\<close> attributes, association
  tables and \<open>relationship\<close> attributes. The declarations are data, and they are embedded
  here as data, one definition per class, in the order of the source. The behaviour the
  declarations stand for (insertion under the declared constraints and defaults, loading a
  relationship, deletion with its cascades) is given by a small interpreter over them in
  the sections that follow.
\<close>

subsection \<open>Values and columns\<close>

text \<open>A stored value. \<open>NULL\<close> is the absence of a value in a row.\<close>

datatype val = VStr string | VInt int | VBool bool | VTime nat

datatype sqltype =
    String nat | StringAny | Text | Integer | Boolean | DateTime | Float
  | DOUBLE_PRECISION | LargeBinary | Enum "string list" | NullType

text \<open>
  The defaults of the source: a constant, \<open>datetime.now\<close>,
  \<open>literal_column("uuid_generate_v4()")\<close> and \<open>literal_column("current_user")\<close>.
\<close>

datatype dflt = Const val | DatetimeNow | UuidGenerateV4 | CurrentUser

record column =
  col_name :: string
  col_type :: sqltype
  col_unique :: bool
  col_nullable :: "bool option"
  col_primary_key :: bool
  col_default :: "dflt option"
  col_onupdate :: "dflt option"
  col_fk :: "(string \<times> string option) option"

text \<open>
  \<open>Column(name, type)\<close> with no keyword: not unique, nullability left to the rule below,
  no default, no foreign key. \<open>ForeignKey(t)\<close> and \<open>ForeignKey(t, ondelete=a)\<close> are the
  two forms of the source.
\<close>

definition Column :: "string \<Rightarrow> sqltype \<Rightarrow> column" where
  "Column n t =
     \<lparr>col_name = n, col_type = t, col_unique = False, col_nullable = None,
      col_primary_key = False, col_default = None, col_onupdate = None, col_fk = None\<rparr>"

definition ForeignKey :: "string \<Rightarrow> (string \<times> string option) option" where
  "ForeignKey t = Some (t, None)"

definition ForeignKeyOnDelete :: "string \<Rightarrow> string \<Rightarrow> (string \<times> string option) option" where
  "ForeignKeyOnDelete t a = Some (t, Some a)"

text \<open>A column without \<open>nullable=\<close> is nullable unless it is part of the primary key.\<close>

definition is_nullable :: "column \<Rightarrow> bool" where
  "is_nullable c = (case col_nullable c of Some b \<Rightarrow> b | None \<Rightarrow> \<not> col_primary_key c)"

subsection \<open>The enumerations\<close>

text \<open>
  The list \<open>rights\<close>, element by element. Line 175 of the source reads
  \<^verbatim>\<open>"EDIT_PROCESSOR_CODE" "LS_PROCESSORS",\<close> with no comma between the two literals:
  Python joins adjacent string literals, so the two form one element.
\<close>

definition rights :: "string list" where
  "rights =
   [''ALL'', ''CREATE'', ''READ'', ''UPDATE'', ''DELETE'', ''DB_DROP'', ''DB_INIT'',
    ''START_AGENT'', ''RUN_TASK'', ''CANCEL_TASK'', ''START_PROCESSOR'', ''STOP_PROCESSOR'',
    ''PAUSE_PROCESSOR'', ''RESUME_PROCESSOR'', ''LOCK_PROCESSOR'', ''UNLOCK_PROCESSOR'',
    ''VIEW_PROCESSOR'', ''VIEW_PROCESSOR_CONFIG'', ''VIEW_PROCESSOR_CODE'',
    ''EDIT_PROCESSOR_CONFIG'',
    ''EDIT_PROCESSOR_CODE'' @ ''LS_PROCESSORS'',
    ''LS_USERS'', ''LS_USER'', ''LS_PLUGS'', ''LS_SOCKETS'', ''LS_QUEUES'', ''LS_AGENTS'',
    ''LS_NODES'', ''LS_SCHEDULERS'', ''LS_WORKERS'',
    ''ADD_PROCESSOR'', ''ADD_AGENT'', ''ADD_NODE'', ''ADD_PLUG'', ''ADD_PRIVILEGE'',
    ''ADD_QUEUE'', ''ADD_ROLE'', ''ADD_SCHEDULER'', ''ADD_SOCKET'', ''ADD_USER'',
    ''UPDATE_PROCESSOR'', ''UPDATE_AGENT'', ''UPDATE_NODE'', ''UPDATE_PLUG'', ''UPDATE_ROLE'',
    ''UPDATE_SCHEDULER'', ''UPDATE_SOCKET'', ''UPDATE_USER'',
    ''DELETE_PROCESSOR'', ''DELETE_AGENT'', ''DELETE_NODE'', ''DELETE_PLUG'',
    ''DELETE_PRIVILEGE'', ''DELETE_QUEUE'', ''DELETE_ROLE'', ''DELETE_SCHEDULER'',
    ''DELETE_SOCKET'', ''DELETE_USER'',
    ''READ_PROCESSOR'', ''READ_AGENT'', ''READ_NODE'', ''READ_LOG'', ''READ_PLUG'',
    ''READ_PRIVILEGE'', ''READ_QUEUE'', ''READ_ROLE'', ''READ_SCHEDULER'', ''READ_SOCKET'',
    ''READ_USER'']"

definition socket_types :: "string list" where
  "socket_types = [''RESULT'', ''ERROR'']"

definition plug_types :: "string list" where
  "plug_types = [''RESULT'', ''ERROR'']"

definition schedule_types :: "string list" where
  "schedule_types = [''CRON'', ''INTERVAL'']"

definition strategies :: "string list" where
  "strategies = [''BALANCED'', ''EFFICIENT'']"

subsection \<open>The mapped classes and their columns\<close>

text \<open>
  One constructor per mapped class, in the order of the module. \<open>BaseModel\<close> is abstract
  (\<open>__abstract__ = True\<close>) and has no table of its own; its columns are those of every
  class that derives from it.
\<close>

datatype model =
    LogModel | PrivilegeModel | RoleModel | UserModel | FileModel | FlowModel | AgentModel
  | ActionModel | WorkerModel | ContainerModel | VersionModel | DeploymentModel
  | ProcessorModel | JobModel | PasswordModel | NetworkModel | WorkModel | CallModel
  | SchedulerModel | SettingsModel | NodeModel | ArgumentModel | TaskModel | EventModel
  | GateModel | SocketModel | PlugModel | QueueModel | LoginModel

definition all_models :: "model list" where
  "all_models =
   [LogModel, PrivilegeModel, RoleModel, UserModel, FileModel, FlowModel, AgentModel,
    ActionModel, WorkerModel, ContainerModel, VersionModel, DeploymentModel,
    ProcessorModel, JobModel, PasswordModel, NetworkModel, WorkModel, CallModel,
    SchedulerModel, SettingsModel, NodeModel, ArgumentModel, TaskModel, EventModel,
    GateModel, SocketModel, PlugModel, QueueModel, LoginModel]"

text \<open>\<open>cls.__name__\<close>.\<close>

fun class_name :: "model \<Rightarrow> string" where
  "class_name LogModel = ''LogModel''"
| "class_name PrivilegeModel = ''PrivilegeModel''"
| "class_name RoleModel = ''RoleModel''"
| "class_name UserModel = ''UserModel''"
| "class_name FileModel = ''FileModel''"
| "class_name FlowModel = ''FlowModel''"
| "class_name AgentModel = ''AgentModel''"
| "class_name ActionModel = ''ActionModel''"
| "class_name WorkerModel = ''WorkerModel''"
| "class_name ContainerModel = ''ContainerModel''"
| "class_name VersionModel = ''VersionModel''"
| "class_name DeploymentModel = ''DeploymentModel''"
| "class_name ProcessorModel = ''ProcessorModel''"
| "class_name JobModel = ''JobModel''"
| "class_name PasswordModel = ''PasswordModel''"
| "class_name NetworkModel = ''NetworkModel''"
| "class_name WorkModel = ''WorkModel''"
| "class_name CallModel = ''CallModel''"
| "class_name SchedulerModel = ''SchedulerModel''"
| "class_name SettingsModel = ''SettingsModel''"
| "class_name NodeModel = ''NodeModel''"
| "class_name ArgumentModel = ''ArgumentModel''"
| "class_name TaskModel = ''TaskModel''"
| "class_name EventModel = ''EventModel''"
| "class_name GateModel = ''GateModel''"
| "class_name SocketModel = ''SocketModel''"
| "class_name PlugModel = ''PlugModel''"
| "class_name QueueModel = ''QueueModel''"
| "class_name LoginModel = ''LoginModel''"

text \<open>\<open>__tablename__\<close>.\<close>

fun tablename :: "model \<Rightarrow> string" where
  "tablename LogModel = ''log''"
| "tablename PrivilegeModel = ''privilege''"
| "tablename RoleModel = ''role''"
| "tablename UserModel = ''users''"
| "tablename FileModel = ''file''"
| "tablename FlowModel = ''flow''"
| "tablename AgentModel = ''agent''"
| "tablename ActionModel = ''action''"
| "tablename WorkerModel = ''worker''"
| "tablename ContainerModel = ''container''"
| "tablename VersionModel = ''versions''"
| "tablename DeploymentModel = ''deployment''"
| "tablename ProcessorModel = ''processor''"
| "tablename JobModel = ''jobs''"
| "tablename PasswordModel = ''passwords''"
| "tablename NetworkModel = ''network''"
| "tablename WorkModel = ''work''"
| "tablename CallModel = ''call''"
| "tablename SchedulerModel = ''scheduler''"
| "tablename SettingsModel = ''settings''"
| "tablename NodeModel = ''node''"
| "tablename ArgumentModel = ''argument''"
| "tablename TaskModel = ''task''"
| "tablename EventModel = ''event''"
| "tablename GateModel = ''gate''"
| "tablename SocketModel = ''socket''"
| "tablename PlugModel = ''plug''"
| "tablename QueueModel = ''queue''"
| "tablename LoginModel = ''login''"

text \<open>
  The classes that derive from \<open>BaseModel\<close>; \<open>LogModel\<close>, \<open>VersionModel\<close>, \<open>JobModel\<close>
  and \<open>LoginModel\<close> derive from \<open>Base\<close> directly and declare all their columns.
\<close>

fun derives_BaseModel :: "model \<Rightarrow> bool" where
  "derives_BaseModel LogModel = False"
| "derives_BaseModel VersionModel = False"
| "derives_BaseModel JobModel = False"
| "derives_BaseModel LoginModel = False"
| "derives_BaseModel _ = True"

text \<open>
  The \<open>id\<close> column, written out identically in \<open>BaseModel\<close>, \<open>LogModel\<close>,
  \<open>VersionModel\<close>, \<open>PasswordModel\<close> and \<open>LoginModel\<close> (\<open>autoincrement=False\<close> has no
  meaning for a string column and is left out).
\<close>

definition id_column :: column where
  "id_column =
     (Column ''id'' (String 40))
       \<lparr>col_default := Some UuidGenerateV4, col_unique := True, col_primary_key := True\<rparr>"

definition BaseModel_columns :: "column list" where
  "BaseModel_columns =
   [id_column,
    (Column ''name'' (String 80))
       \<lparr>col_unique := True, col_nullable := Some False, col_primary_key := True\<rparr>,
    (Column ''owner'' (String 40))\<lparr>col_default := Some CurrentUser\<rparr>,
    (Column ''status'' (String 20))
       \<lparr>col_nullable := Some False, col_default := Some (Const (VStr ''ready''))\<rparr>,
    (Column ''requested_status'' (String 40))\<lparr>col_default := Some (Const (VStr ''ready''))\<rparr>,
    Column ''enabled'' Boolean,
    (Column ''created'' DateTime)
       \<lparr>col_default := Some DatetimeNow, col_nullable := Some False\<rparr>,
    (Column ''lastupdated'' DateTime)
       \<lparr>col_default := Some DatetimeNow, col_onupdate := Some DatetimeNow,
        col_nullable := Some False\<rparr>]"

text \<open>
  The columns each class declares in its own body. In \<open>ProcessorModel\<close> the name
  \<open>password\<close> is bound first to \<open>Column(Boolean)\<close> and later in the same class body to a
  \<open>relationship\<close>; the class keeps the later binding only, so there is no such column.
\<close>

fun own_columns :: "model \<Rightarrow> column list" where
  "own_columns LogModel =
   [id_column,
    (Column ''user_id'' StringAny)\<lparr>col_fk := ForeignKey ''users.id'', col_nullable := Some False\<rparr>,
    (Column ''public'' Boolean)\<lparr>col_default := Some (Const (VBool False))\<rparr>,
    (Column ''created'' DateTime)\<lparr>col_default := Some DatetimeNow, col_nullable := Some False\<rparr>,
    (Column ''oid'' (String 40))\<lparr>col_primary_key := True\<rparr>,
    Column ''discriminator'' (String 40),
    (Column ''text'' (String 80))\<lparr>col_nullable := Some False\<rparr>,
    (Column ''source'' (String 40))\<lparr>col_nullable := Some False\<rparr>]"
| "own_columns PrivilegeModel =
   [Column ''right'' (Enum rights)]"
| "own_columns RoleModel = []"
| "own_columns UserModel =
   [(Column ''email'' (String 120))\<lparr>col_unique := True, col_nullable := Some False\<rparr>,
    (Column ''password'' (String 60))\<lparr>col_unique := False, col_nullable := Some False\<rparr>,
    (Column ''clear'' (String 60))\<lparr>col_unique := False, col_nullable := Some False\<rparr>]"
| "own_columns FileModel =
   [Column ''path'' (String 120),
    Column ''filename'' (String 80),
    Column ''collection'' (String 80),
    Column ''code'' Text,
    Column ''type'' (String 40),
    Column ''icon'' (String 40),
    (Column ''user_id'' StringAny)\<lparr>col_fk := ForeignKey ''users.id'', col_nullable := Some False\<rparr>]"
| "own_columns FlowModel =
   [(Column ''file_id'' StringAny)\<lparr>col_fk := ForeignKey ''file.id'', col_nullable := Some False\<rparr>]"
| "own_columns AgentModel =
   [Column ''hostname'' (String 60),
    Column ''cpus'' Integer,
    Column ''port'' Integer,
    Column ''pid'' Integer,
    (Column ''node_id'' (String 40))\<lparr>col_fk := ForeignKey ''node.id'', col_nullable := Some False\<rparr>]"
| "own_columns ActionModel =
   [Column ''params'' (String 80),
    (Column ''target'' (String 20))\<lparr>col_nullable := Some False\<rparr>]"
| "own_columns WorkerModel =
   [(Column ''backend'' (String 40))\<lparr>col_nullable := Some False\<rparr>,
    (Column ''broker'' (String 40))\<lparr>col_nullable := Some False\<rparr>,
    Column ''concurrency'' Integer,
    Column ''process'' Integer,
    Column ''port'' Integer,
    Column ''hostname'' (String 60),
    Column ''workerdir'' (String 256),
    (Column ''processor_id'' (String 40))
       \<lparr>col_fk := ForeignKeyOnDelete ''processor.id'' ''CASCADE'', col_nullable := Some False\<rparr>,
    (Column ''deployment_id'' (String 40))
       \<lparr>col_fk := ForeignKey ''deployment.id'', col_nullable := Some True\<rparr>,
    (Column ''agent_id'' (String 40))\<lparr>col_fk := ForeignKey ''agent.id'', col_nullable := Some False\<rparr>]"
| "own_columns ContainerModel =
   [(Column ''container_id'' (String 80))\<lparr>col_unique := True, col_nullable := Some False\<rparr>]"
| "own_columns VersionModel =
   [id_column,
    (Column ''name'' (String 80))\<lparr>col_unique := False, col_nullable := Some False\<rparr>,
    (Column ''file_id'' StringAny)\<lparr>col_fk := ForeignKey ''file.id'', col_nullable := Some False\<rparr>,
    (Column ''owner'' (String 40))\<lparr>col_default := Some CurrentUser\<rparr>,
    (Column ''flow'' Text)\<lparr>col_unique := False, col_nullable := Some False\<rparr>,
    (Column ''version'' DateTime)
       \<lparr>col_default := Some DatetimeNow, col_onupdate := Some DatetimeNow,
        col_nullable := Some False\<rparr>]"
| "own_columns DeploymentModel =
   [(Column ''name'' (String 80))\<lparr>col_unique := False, col_nullable := Some False\<rparr>,
    (Column ''hostname'' (String 80))\<lparr>col_nullable := Some False\<rparr>,
    (Column ''cpus'' Integer)\<lparr>col_default := Some (Const (VInt 1)), col_nullable := Some False\<rparr>,
    (Column ''processor_id'' (String 40))
       \<lparr>col_fk := ForeignKey ''processor.id'', col_nullable := Some False\<rparr>]"
| "own_columns ProcessorModel =
   [(Column ''module'' (String 80))\<lparr>col_nullable := Some False\<rparr>,
    Column ''beat'' Boolean,
    Column ''gitrepo'' (String 180),
    (Column ''branch'' (String 30))\<lparr>col_default := Some (Const (VStr ''main''))\<rparr>,
    (Column ''commit'' (String 50))\<lparr>col_nullable := Some True\<rparr>,
    (Column ''gittag'' (String 50))\<lparr>col_nullable := Some True\<rparr>,
    Column ''retries'' Integer,
    Column ''concurrency'' Integer,
    (Column ''receipt'' (String 80))\<lparr>col_nullable := Some True\<rparr>,
    (Column ''ratelimit'' (String 10))\<lparr>col_default := Some (Const (VInt 60))\<rparr>,
    (Column ''perworker'' Boolean)\<lparr>col_default := Some (Const (VBool True))\<rparr>,
    Column ''timelimit'' Integer,
    Column ''ignoreresult'' Boolean,
    Column ''serializer'' (String 10),
    Column ''backend'' (String 80),
    Column ''ackslate'' Boolean,
    Column ''trackstarted'' Boolean,
    Column ''disabled'' Boolean,
    Column ''retrydelay'' Integer,
    Column ''requirements'' Text,
    Column ''endpoint'' Text,
    Column ''modulepath'' Text,
    Column ''icon'' Text,
    Column ''cron'' Text,
    Column ''hasapi'' Boolean,
    Column ''uistate'' Text,
    (Column ''description'' Text)
       \<lparr>col_nullable := Some True, col_default := Some (Const (VStr ''Some description''))\<rparr>,
    Column ''container_image'' (String 60),
    Column ''container_command'' (String 180),
    (Column ''container_version'' (String 20))\<lparr>col_default := Some (Const (VStr ''latest''))\<rparr>,
    (Column ''use_container'' Boolean)\<lparr>col_default := Some (Const (VBool False))\<rparr>,
    (Column ''detached'' Boolean)\<lparr>col_default := Some (Const (VBool False))\<rparr>,
    (Column ''user_id'' StringAny)\<lparr>col_fk := ForeignKey ''users.id'', col_nullable := Some False\<rparr>,
    (Column ''flow_id'' (String 40))\<lparr>col_fk := ForeignKey ''flow.id'', col_nullable := Some True\<rparr>,
    (Column ''password_id'' StringAny)
       \<lparr>col_fk := ForeignKey ''passwords.id'', col_nullable := Some True\<rparr>]"
| "own_columns JobModel =
   [(Column ''id'' (String 200))\<lparr>col_primary_key := True\<rparr>,
    Column ''next_run_time'' DOUBLE_PRECISION,
    Column ''job_state'' LargeBinary]"
| "own_columns PasswordModel =
   [id_column,
    (Column ''password'' (String 60))\<lparr>col_nullable := Some False\<rparr>]"
| "own_columns NetworkModel =
   [(Column ''user_id'' StringAny)\<lparr>col_fk := ForeignKey ''users.id'', col_nullable := Some False\<rparr>]"
| "own_columns WorkModel =
   [Column ''next_run_time'' DOUBLE_PRECISION,
    Column ''job_state'' LargeBinary,
    (Column ''task_id'' (String 40))\<lparr>col_fk := ForeignKey ''task.id''\<rparr>]"
| "own_columns CallModel =
   [(Column ''name'' (String 80))\<lparr>col_unique := False, col_nullable := Some False\<rparr>,
    Column ''state'' (String 10),
    (Column ''parent'' (String 80))\<lparr>col_nullable := Some True\<rparr>,
    (Column ''taskparent'' (String 80))\<lparr>col_nullable := Some True\<rparr>,
    Column ''resultid'' (String 80),
    Column ''celeryid'' (String 80),
    Column ''tracking'' (String 80),
    Column ''argument'' (String 40),
    (Column ''task_id'' (String 40))\<lparr>col_fk := ForeignKey ''task.id'', col_nullable := Some False\<rparr>,
    (Column ''started'' DateTime)\<lparr>col_default := Some DatetimeNow, col_nullable := Some False\<rparr>,
    Column ''finished'' DateTime,
    (Column ''socket_id'' (String 40))
       \<lparr>col_fk := ForeignKey ''socket.id'', col_nullable := Some False\<rparr>]"
| "own_columns SchedulerModel =
   [Column ''strategy'' (Enum strategies),
    (Column ''network_id'' (String 40))\<lparr>col_fk := ForeignKey ''network.id''\<rparr>]"
| "own_columns SettingsModel =
   [(Column ''value'' (String 80))\<lparr>col_nullable := Some False\<rparr>]"
| "own_columns NodeModel =
   [Column ''hostname'' (String 60),
    (Column ''scheduler_id'' (String 40))
       \<lparr>col_fk := ForeignKey ''scheduler.id'', col_nullable := Some True\<rparr>,
    (Column ''memsize'' (String 60))\<lparr>col_default := Some (Const (VStr ''NaN''))\<rparr>,
    (Column ''freemem'' (String 60))\<lparr>col_default := Some (Const (VStr ''NaN''))\<rparr>,
    (Column ''memused'' Float)\<lparr>col_default := Some (Const (VInt 0))\<rparr>,
    (Column ''disksize'' (String 60))\<lparr>col_default := Some (Const (VStr ''NaN''))\<rparr>,
    (Column ''diskusage'' (String 60))\<lparr>col_default := Some (Const (VStr ''NaN''))\<rparr>,
    (Column ''cpus'' Integer)\<lparr>col_default := Some (Const (VInt 0))\<rparr>,
    (Column ''cpuload'' Float)\<lparr>col_default := Some (Const (VInt 0))\<rparr>,
    (Column ''network_id'' (String 40))\<lparr>col_fk := ForeignKey ''network.id''\<rparr>]"
| "own_columns ArgumentModel =
   [(Column ''name'' (String 60))\<lparr>col_nullable := Some False\<rparr>,
    (Column ''position'' Integer)\<lparr>col_default := Some (Const (VInt 0))\<rparr>,
    Column ''kind'' Integer,
    (Column ''task_id'' (String 40))\<lparr>col_fk := ForeignKey ''task.id''\<rparr>,
    (Column ''user_id'' StringAny)\<lparr>col_fk := ForeignKey ''users.id'', col_nullable := Some False\<rparr>]"
| "own_columns TaskModel =
   [(Column ''module'' (String 120))\<lparr>col_nullable := Some False, col_primary_key := True\<rparr>,
    (Column ''gitrepo'' (String 180))\<lparr>col_nullable := Some False, col_primary_key := True\<rparr>,
    (Column ''mixin'' Boolean)\<lparr>col_default := Some (Const (VBool False))\<rparr>,
    Column ''source'' Text,
    Column ''code'' Text]"
| "own_columns EventModel =
   [(Column ''note'' (String 80))\<lparr>col_nullable := Some False\<rparr>,
    (Column ''name'' (String 80))\<lparr>col_nullable := Some False\<rparr>,
    (Column ''call_id'' (String 40))\<lparr>col_fk := ForeignKey ''call.id''\<rparr>]"
| "own_columns GateModel =
   [Column ''open'' Boolean,
    (Column ''task_id'' (String 40))\<lparr>col_fk := ForeignKey ''task.id''\<rparr>]"
| "own_columns SocketModel =
   [(Column ''processor_id'' (String 40))
       \<lparr>col_fk := ForeignKey ''processor.id'', col_nullable := Some False\<rparr>,
    Column ''schedule_type'' (Enum schedule_types),
    Column ''scheduled'' Boolean,
    Column ''cron'' (String 20),
    (Column ''description'' Text)
       \<lparr>col_nullable := Some True, col_default := Some (Const (VStr ''Some description''))\<rparr>,
    Column ''interval'' Integer,
    (Column ''task_id'' (String 40))\<lparr>col_fk := ForeignKey ''task.id''\<rparr>,
    (Column ''user_id'' StringAny)\<lparr>col_fk := ForeignKey ''users.id'', col_nullable := Some False\<rparr>,
    (Column ''wait'' Boolean)\<lparr>col_default := Some (Const (VBool False))\<rparr>]"
| "own_columns PlugModel =
   [(Column ''type'' (Enum plug_types))\<lparr>col_default := Some (Const (VStr ''RESULT''))\<rparr>,
    (Column ''processor_id'' (String 40))
       \<lparr>col_fk := ForeignKey ''processor.id'', col_nullable := Some False\<rparr>,
    (Column ''argument_id'' StringAny)\<lparr>col_fk := ForeignKey ''argument.id''\<rparr>,
    (Column ''user_id'' StringAny)\<lparr>col_fk := ForeignKey ''users.id'', col_nullable := Some False\<rparr>,
    (Column ''description'' Text)
       \<lparr>col_nullable := Some True, col_default := Some (Const (VStr ''Some description''))\<rparr>]"
| "own_columns QueueModel =
   [(Column ''qtype'' (String 20))
       \<lparr>col_nullable := Some False, col_default := Some (Const (VStr ''direct''))\<rparr>,
    (Column ''durable'' Boolean)\<lparr>col_default := Some (Const (VBool True))\<rparr>,
    (Column ''reliable'' Boolean)\<lparr>col_default := Some (Const (VBool True))\<rparr>,
    (Column ''auto_delete'' Boolean)\<lparr>col_default := Some (Const (VBool True))\<rparr>,
    (Column ''max_length'' Integer)\<lparr>col_default := Some (Const (VInt (- 1)))\<rparr>,
    (Column ''max_length_bytes'' Integer)\<lparr>col_default := Some (Const (VInt (- 1)))\<rparr>,
    (Column ''message_ttl'' Integer)\<lparr>col_default := Some (Const (VInt 3000))\<rparr>,
    (Column ''expires'' Integer)\<lparr>col_default := Some (Const (VInt 3000))\<rparr>,
    (Column ''network_id'' (String 40))\<lparr>col_fk := ForeignKey ''network.id''\<rparr>]"
| "own_columns LoginModel =
   [id_column,
    (Column ''owner'' (String 40))\<lparr>col_default := Some CurrentUser\<rparr>,
    (Column ''created'' DateTime)\<lparr>col_default := Some DatetimeNow, col_nullable := Some False\<rparr>,
    (Column ''lastupdated'' DateTime)
       \<lparr>col_default := Some DatetimeNow, col_onupdate := Some DatetimeNow,
        col_nullable := Some False\<rparr>,
    (Column ''login'' DateTime)\<lparr>col_default := Some DatetimeNow, col_nullable := Some False\<rparr>,
    (Column ''token'' (String 40))
       \<lparr>col_default := Some UuidGenerateV4, col_unique := True, col_primary_key := True\<rparr>,
    (Column ''user_id'' StringAny)\<lparr>col_fk := ForeignKey ''users.id'', col_nullable := Some False\<rparr>]"

text \<open>
  The columns of a mapped class: its own, and for a class deriving from \<open>BaseModel\<close> the
  base columns whose names the class does not declare itself. A class that declares
  \<open>name\<close> or \<open>id\<close> again replaces the base column of that name.
\<close>

definition columns :: "model \<Rightarrow> column list" where
  "columns m =
     own_columns m @
     (if derives_BaseModel m
      then filter (\<lambda>c. col_name c \<notin> set (map col_name (own_columns m))) BaseModel_columns
      else [])"

definition column_named :: "model \<Rightarrow> string \<Rightarrow> column option" where
  "column_named m n = find (\<lambda>c. col_name c = n) (columns m)"

subsection \<open>The association tables\<close>

text \<open>
  Each \<open>Table(name, Base.metadata, Column(...), Column(...))\<close> of the module. Their
  columns carry no type of their own (it follows the referenced column).
\<close>

definition Table :: "string \<Rightarrow> column list \<Rightarrow> string \<times> column list" where
  "Table n cs = (n, cs)"

definition tables :: "(string \<times> column list) list" where
  "tables =
   [Table ''role_privileges''
      [(Column ''role_id'' NullType)\<lparr>col_fk := ForeignKey ''role.id''\<rparr>,
       (Column ''privilege_id'' NullType)\<lparr>col_fk := ForeignKey ''privilege.id''\<rparr>],
    Table ''user_privileges_revoked''
      [(Column ''user_id'' NullType)\<lparr>col_fk := ForeignKey ''users.id''\<rparr>,
       (Column ''privilege_id'' NullType)\<lparr>col_fk := ForeignKey ''privilege.id''\<rparr>],
    Table ''user_privileges''
      [(Column ''user_id'' NullType)\<lparr>col_fk := ForeignKey ''users.id''\<rparr>,
       (Column ''privilege_id'' NullType)\<lparr>col_fk := ForeignKey ''privilege.id''\<rparr>],
    Table ''user_roles''
      [(Column ''user_id'' NullType)\<lparr>col_fk := ForeignKey ''users.id''\<rparr>,
       (Column ''role_id'' NullType)\<lparr>col_fk := ForeignKey ''role.id''\<rparr>],
    Table ''flows_versions''
      [(Column ''flow_id'' NullType)\<lparr>col_fk := ForeignKey ''flow.id'', col_primary_key := True\<rparr>,
       (Column ''version_id'' NullType)
          \<lparr>col_fk := ForeignKey ''versions.id'', col_primary_key := True\<rparr>],
    Table ''calls_events''
      [(Column ''call_id'' NullType)\<lparr>col_fk := ForeignKey ''call.id'', col_primary_key := True\<rparr>,
       (Column ''event_id'' NullType)\<lparr>col_fk := ForeignKey ''event.id'', col_primary_key := True\<rparr>],
    Table ''plugs_arguments''
      [(Column ''plug_id'' NullType)\<lparr>col_fk := ForeignKey ''plug.id'', col_primary_key := True\<rparr>,
       (Column ''argument_id'' NullType)
          \<lparr>col_fk := ForeignKey ''argument.id'', col_primary_key := True\<rparr>],
    Table ''sockets_queues''
      [(Column ''socket_id'' NullType)\<lparr>col_fk := ForeignKey ''socket.id''\<rparr>,
       (Column ''queue_id'' NullType)\<lparr>col_fk := ForeignKey ''queue.id''\<rparr>],
    Table ''plugs_source_sockets''
      [(Column ''plug_id'' NullType)\<lparr>col_fk := ForeignKey ''plug.id'', col_primary_key := True\<rparr>,
       (Column ''socket_id'' NullType)
          \<lparr>col_fk := ForeignKey ''socket.id'', col_primary_key := True\<rparr>],
    Table ''plugs_target_sockets''
      [(Column ''plug_id'' NullType)\<lparr>col_fk := ForeignKey ''plug.id'', col_primary_key := True\<rparr>,
       (Column ''socket_id'' NullType)
          \<lparr>col_fk := ForeignKey ''socket.id'', col_primary_key := True\<rparr>],
    Table ''plugs_queues''
      [(Column ''plug_id'' NullType)\<lparr>col_fk := ForeignKey ''plug.id''\<rparr>,
       (Column ''queue_id'' NullType)\<lparr>col_fk := ForeignKey ''queue.id''\<rparr>]]"

subsection \<open>The relationships\<close>

text \<open>
  A \<open>relationship(...)\<close> with the keywords the module uses. The loading strategy
  (\<open>lazy=\<close>) decides when rows are fetched, not which, and is left out, as is
  \<open>overlaps=\<close> on \<open>LoginModel.user\<close>, which only silences a mapper warning. A
  \<open>primaryjoin\<close> is a conjunction of conditions on the target row:
  \<open>foreign(Target.c) == cls.id\<close>, or \<open>Target.c == literal\<close>.
\<close>

datatype cond = ForeignEqId string | ColEqLit string string

datatype ordering = Desc string

record relationship =
  rel_name :: string
  rel_argument :: model
  rel_secondary :: "string option"
  rel_primaryjoin :: "cond list option"
  rel_order_by :: "ordering option"
  rel_cascade :: "string list"
  rel_single_parent :: bool
  rel_viewonly :: bool
  rel_uselist :: "bool option"
  rel_backref :: "string option"
  rel_back_populates :: "string option"

text \<open>Without \<open>cascade=\<close> a relationship cascades \<open>save-update\<close> and \<open>merge\<close> only.\<close>

definition relationship :: "string \<Rightarrow> model \<Rightarrow> relationship" where
  "relationship n target =
     \<lparr>rel_name = n, rel_argument = target, rel_secondary = None, rel_primaryjoin = None,
      rel_order_by = None, rel_cascade = [''save-update'', ''merge''],
      rel_single_parent = False, rel_viewonly = False, rel_uselist = None,
      rel_backref = None, rel_back_populates = None\<rparr>"

text \<open>The two mixins, each a function of the class it is mixed into.\<close>

definition HasLogins_logins :: "model \<Rightarrow> relationship" where
  "HasLogins_logins cls =
     (relationship ''logins'' LoginModel)
       \<lparr>rel_order_by := Some (Desc ''created''),
        rel_primaryjoin := Some [ForeignEqId ''user_id'']\<rparr>"

definition HasLogs_logs :: "model \<Rightarrow> relationship" where
  "HasLogs_logs cls =
     (relationship ''logs'' LogModel)
       \<lparr>rel_order_by := Some (Desc ''created''),
        rel_primaryjoin := Some [ForeignEqId ''oid'', ColEqLit ''discriminator'' (class_name cls)]\<rparr>"

text \<open>The relationships each class declares, mixins first.\<close>

fun declared_relationships :: "model \<Rightarrow> relationship list" where
  "declared_relationships LogModel =
   [relationship ''user'' UserModel]"
| "declared_relationships RoleModel =
   [(relationship ''privileges'' PrivilegeModel)\<lparr>rel_secondary := Some ''role_privileges''\<rparr>]"
| "declared_relationships UserModel =
   [HasLogins_logins UserModel,
    (relationship ''privileges'' PrivilegeModel)\<lparr>rel_secondary := Some ''user_privileges''\<rparr>,
    (relationship ''revoked'' PrivilegeModel)
       \<lparr>rel_secondary := Some ''user_privileges_revoked''\<rparr>,
    (relationship ''roles'' RoleModel)\<lparr>rel_secondary := Some ''user_roles''\<rparr>]"
| "declared_relationships FileModel =
   [(relationship ''versions'' VersionModel)
       \<lparr>rel_back_populates := Some ''file'', rel_cascade := [''all'', ''delete-orphan'']\<rparr>,
    relationship ''user'' UserModel]"
| "declared_relationships FlowModel =
   [relationship ''processors'' ProcessorModel,
    (relationship ''file'' FileModel)
       \<lparr>rel_cascade := [''all'', ''delete-orphan''], rel_single_parent := True\<rparr>,
    (relationship ''versions'' VersionModel)\<lparr>rel_secondary := Some ''flows_versions''\<rparr>]"
| "declared_relationships AgentModel =
   [(relationship ''workers'' WorkerModel)
       \<lparr>rel_backref := Some ''agent'', rel_cascade := [''all'', ''delete-orphan'']\<rparr>]"
| "declared_relationships WorkerModel =
   [relationship ''processor'' ProcessorModel,
    (relationship ''deployment'' DeploymentModel)\<lparr>rel_back_populates := Some ''worker''\<rparr>]"
| "declared_relationships VersionModel =
   [(relationship ''file'' FileModel)
       \<lparr>rel_cascade := [''all'', ''delete-orphan''], rel_single_parent := True\<rparr>]"
| "declared_relationships DeploymentModel =
   [(relationship ''worker'' WorkerModel)
       \<lparr>rel_uselist := Some False, rel_back_populates := Some ''deployment''\<rparr>]"
| "declared_relationships ProcessorModel =
   [HasLogs_logs ProcessorModel,
    (relationship ''user'' UserModel)\<lparr>rel_backref := Some ''processor''\<rparr>,
    (relationship ''password'' PasswordModel)\<lparr>rel_viewonly := True\<rparr>,
    (relationship ''plugs'' PlugModel)
       \<lparr>rel_backref := Some ''processor'', rel_cascade := [''all'', ''delete-orphan'']\<rparr>,
    (relationship ''deployments'' DeploymentModel)
       \<lparr>rel_backref := Some ''processor'', rel_cascade := [''all'', ''delete-orphan'']\<rparr>,
    (relationship ''sockets'' SocketModel)
       \<lparr>rel_backref := Some ''processor'', rel_cascade := [''all'', ''delete-orphan'']\<rparr>]"
| "declared_relationships PasswordModel =
   [(relationship ''processor'' ProcessorModel)\<lparr>rel_uselist := Some False\<rparr>]"
| "declared_relationships NetworkModel =
   [(relationship ''schedulers'' SchedulerModel)
       \<lparr>rel_backref := Some ''network'', rel_cascade := [''all'', ''delete'']\<rparr>,
    (relationship ''queues'' QueueModel)
       \<lparr>rel_backref := Some ''network'', rel_cascade := [''all'', ''delete'']\<rparr>,
    (relationship ''nodes'' NodeModel)
       \<lparr>rel_backref := Some ''network'', rel_cascade := [''all'', ''delete'']\<rparr>,
    relationship ''user'' UserModel]"
| "declared_relationships WorkModel =
   [(relationship ''task'' TaskModel)\<lparr>rel_single_parent := True\<rparr>]"
| "declared_relationships CallModel =
   [(relationship ''socket'' SocketModel)
       \<lparr>rel_back_populates := Some ''call'', rel_uselist := Some False\<rparr>,
    (relationship ''events'' EventModel)
       \<lparr>rel_secondary := Some ''calls_events'', rel_cascade := [''all'', ''delete'']\<rparr>]"
| "declared_relationships SchedulerModel =
   [(relationship ''nodes'' NodeModel)\<lparr>rel_backref := Some ''scheduler''\<rparr>]"
| "declared_relationships NodeModel =
   [(relationship ''agent'' AgentModel)
       \<lparr>rel_backref := Some ''node'', rel_uselist := Some False,
        rel_cascade := [''all'', ''delete-orphan'']\<rparr>]"
| "declared_relationships ArgumentModel =
   [relationship ''user'' UserModel,
    (relationship ''plugs'' PlugModel)\<lparr>rel_backref := Some ''argument''\<rparr>]"
| "declared_relationships TaskModel =
   [(relationship ''sockets'' SocketModel)\<lparr>rel_back_populates := Some ''task''\<rparr>,
    (relationship ''arguments'' ArgumentModel)\<lparr>rel_backref := Some ''task''\<rparr>]"
| "declared_relationships EventModel =
   [(relationship ''call'' CallModel)
       \<lparr>rel_back_populates := Some ''events'', rel_single_parent := True,
        rel_cascade := [''all'', ''delete-orphan'']\<rparr>]"
| "declared_relationships SocketModel =
   [(relationship ''task'' TaskModel)
       \<lparr>rel_back_populates := Some ''sockets'', rel_single_parent := True,
        rel_cascade := [''delete'', ''delete-orphan'']\<rparr>,
    relationship ''user'' UserModel,
    (relationship ''sourceplugs'' PlugModel)\<lparr>rel_secondary := Some ''plugs_source_sockets''\<rparr>,
    (relationship ''targetplugs'' PlugModel)\<lparr>rel_secondary := Some ''plugs_target_sockets''\<rparr>,
    (relationship ''queue'' QueueModel)
       \<lparr>rel_secondary := Some ''sockets_queues'', rel_uselist := Some False\<rparr>,
    (relationship ''call'' CallModel)
       \<lparr>rel_back_populates := Some ''socket'', rel_cascade := [''all'', ''delete-orphan'']\<rparr>]"
| "declared_relationships PlugModel =
   [(relationship ''source'' SocketModel)
       \<lparr>rel_back_populates := Some ''sourceplugs'',
        rel_secondary := Some ''plugs_source_sockets'', rel_uselist := Some False\<rparr>,
    (relationship ''target'' SocketModel)
       \<lparr>rel_back_populates := Some ''targetplugs'',
        rel_secondary := Some ''plugs_target_sockets'', rel_uselist := Some False\<rparr>,
    relationship ''user'' UserModel,
    (relationship ''queue'' QueueModel)
       \<lparr>rel_secondary := Some ''plugs_queues'', rel_uselist := Some False\<rparr>]"
| "declared_relationships LoginModel =
   [relationship ''user'' UserModel]"
| "declared_relationships _ = []"

text \<open>
  \<open>backref=n\<close> on a relationship from class \<open>m'\<close> to class \<open>m\<close> also gives \<open>m\<close> a
  relationship \<open>n\<close> back to \<open>m'\<close>, with the default cascade.
\<close>

definition backrefs :: "model \<Rightarrow> relationship list" where
  "backrefs m =
     concat (map (\<lambda>m'. concat (map (\<lambda>r.
        (case rel_backref r of
           Some n \<Rightarrow> (if rel_argument r = m then [relationship n m'] else [])
         | None \<Rightarrow> [])) (declared_relationships m'))) all_models)"

definition relationships :: "model \<Rightarrow> relationship list" where
  "relationships m = declared_relationships m @ backrefs m"

section \<open>The store\<close>

text \<open>
  A row maps column names to values; a column that is absent is \<open>NULL\<close>. An object is
  a row together with its class. The store holds the objects and the rows of the
  association tables, each as a list. The position of a row in its list is where the
  table holds it; it is not an order that a query is promised.
\<close>

type_synonym row = "(string \<times> val) list"
type_synonym obj = "model \<times> row"

record store =
  objects :: "obj list"
  links :: "(string \<times> row) list"

definition empty_store :: store where
  "empty_store = \<lparr>objects = [], links = []\<rparr>"

text \<open>
  What the defaults of the source read at insertion time: the clock, the identifier
  generator (one value per column that asks for one) and the acting principal.
\<close>

record env =
  env_now :: nat
  env_uuid :: "string \<Rightarrow> string"
  env_user :: string

datatype violation =
    NotNull string | NotInEnum string | TooLong string | NotUnique string | DuplicateKey

datatype error = ValidationError violation | CascadeConflict | NotPersisted

subsection \<open>Creating a record\<close>

fun default_value :: "env \<Rightarrow> string \<Rightarrow> dflt \<Rightarrow> val" where
  "default_value e n (Const v) = v"
| "default_value e n DatetimeNow = VTime (env_now e)"
| "default_value e n UuidGenerateV4 = VStr (env_uuid e n)"
| "default_value e n CurrentUser = VStr (env_user e)"

text \<open>
  The value a column receives: the one given by the caller, else the column's default,
  else \<open>NULL\<close>.
\<close>

definition insert_value :: "env \<Rightarrow> row \<Rightarrow> column \<Rightarrow> val option" where
  "insert_value e kw c =
     (case map_of kw (col_name c) of
        Some v \<Rightarrow> Some v
      | None \<Rightarrow> map_option (default_value e (col_name c)) (col_default c))"

definition new_row :: "env \<Rightarrow> model \<Rightarrow> row \<Rightarrow> row" where
  "new_row e m kw =
     List.map_filter (\<lambda>c. map_option (Pair (col_name c)) (insert_value e kw c)) (columns m)"

text \<open>A string must belong to its \<open>Enum\<close> and fit its \<open>String(n)\<close>.\<close>

fun type_violations :: "string \<Rightarrow> sqltype \<Rightarrow> val \<Rightarrow> violation list" where
  "type_violations n (Enum xs) (VStr s) = (if s \<in> set xs then [] else [NotInEnum n])"
| "type_violations n (String k) (VStr s) = (if length s \<le> k then [] else [TooLong n])"
| "type_violations n _ _ = []"

definition taken :: "store \<Rightarrow> model \<Rightarrow> string \<Rightarrow> val \<Rightarrow> bool" where
  "taken st m n v = list_ex (\<lambda>(m', r'). m' = m \<and> map_of r' n = Some v) (objects st)"

definition primary_key :: "model \<Rightarrow> string list" where
  "primary_key m = map col_name (filter col_primary_key (columns m))"

definition key_taken :: "store \<Rightarrow> model \<Rightarrow> row \<Rightarrow> bool" where
  "key_taken st m r =
     list_ex (\<lambda>(m', r'). m' = m \<and> list_all (\<lambda>n. map_of r' n = map_of r n) (primary_key m))
       (objects st)"

definition column_violations :: "store \<Rightarrow> model \<Rightarrow> row \<Rightarrow> column \<Rightarrow> violation list" where
  "column_violations st m r c =
     (case map_of r (col_name c) of
        None \<Rightarrow> (if is_nullable c then [] else [NotNull (col_name c)])
      | Some v \<Rightarrow>
          type_violations (col_name c) (col_type c) v @
          (if col_unique c \<and> taken st m (col_name c) v then [NotUnique (col_name c)] else []))"

definition violations :: "store \<Rightarrow> model \<Rightarrow> row \<Rightarrow> violation list" where
  "violations st m r =
     concat (map (column_violations st m r) (columns m)) @
     (if key_taken st m r then [DuplicateKey] else [])"

text \<open>
  Creation fills in the defaults, checks the declared constraints of every column and
  appends the row. Whether a foreign key points at an existing row is not checked here.
\<close>

definition create :: "env \<Rightarrow> model \<Rightarrow> row \<Rightarrow> store \<Rightarrow> error + store" where
  "create e m kw st =
     (case violations st m (new_row e m kw) of
        [] \<Rightarrow> Inr (st\<lparr>objects := objects st @ [(m, new_row e m kw)]\<rparr>)
      | v # _ \<Rightarrow> Inl (ValidationError v))"

subsection \<open>Updating a record\<close>

text \<open>
  An update makes a net change when it gives some column a value other than the one the
  row has. Only then is an \<open>UPDATE\<close> statement emitted.
\<close>

definition changed :: "model \<Rightarrow> row \<Rightarrow> row \<Rightarrow> bool" where
  "changed m r changes =
     list_ex (\<lambda>c. case map_of changes (col_name c) of
                      Some v \<Rightarrow> map_of r (col_name c) \<noteq> Some v
                    | None \<Rightarrow> False)
       (columns m)"

text \<open>
  The value an \<open>UPDATE\<close> statement gives a column: the one the update gives, else the
  column's \<open>onupdate\<close> value when it has one, else the value it had. It is used for an
  update that makes a net change, and for no other.
\<close>

definition update_value :: "env \<Rightarrow> row \<Rightarrow> row \<Rightarrow> column \<Rightarrow> val option" where
  "update_value e r changes c =
     (case map_of changes (col_name c) of
        Some v \<Rightarrow> Some v
      | None \<Rightarrow>
          (case col_onupdate c of
             Some d \<Rightarrow> Some (default_value e (col_name c) d)
           | None \<Rightarrow> map_of r (col_name c)))"

text \<open>The row after an update: as it was, unless the update makes a net change.\<close>

definition updated_row :: "env \<Rightarrow> model \<Rightarrow> row \<Rightarrow> row \<Rightarrow> row" where
  "updated_row e m r changes =
     (if changed m r changes
      then List.map_filter (\<lambda>c. map_option (Pair (col_name c)) (update_value e r changes c))
             (columns m)
      else r)"

text \<open>
  An update without a net change leaves the store as it is. Any other update replaces
  the row of the stored object, in place, if the new row meets the declared constraints
  among the other objects. Nothing in the module restricts which values may follow which.
\<close>

definition update :: "env \<Rightarrow> obj \<Rightarrow> row \<Rightarrow> store \<Rightarrow> error + store" where
  "update e x changes st =
     (if x \<notin> set (objects st) then Inl NotPersisted
      else if \<not> changed (fst x) (snd x) changes then Inr st
      else
        case violations (st\<lparr>objects := filter (\<lambda>y. y \<noteq> x) (objects st)\<rparr>) (fst x)
                        (updated_row e (fst x) (snd x) changes) of
          [] \<Rightarrow>
            Inr (st\<lparr>objects :=
                   map (\<lambda>y. if y = x then (fst x, updated_row e (fst x) (snd x) changes) else y)
                       (objects st)\<rparr>)
        | v # _ \<Rightarrow> Inl (ValidationError v))"

subsection \<open>Loading a relationship\<close>

text \<open>
  The join of a relationship is found from the foreign keys, as the mapper does: through
  the association table when there is a \<open>secondary\<close>; from the \<open>foreign(...)\<close> column of
  a \<open>primaryjoin\<close>; else one-to-many when the target's table has a foreign key to the
  owner's table, and many-to-one when the owner's table has one to the target's.
\<close>

datatype direction = ONETOMANY string | MANYTOONE string | MANYTOMANY string string string

definition references :: "string \<Rightarrow> column \<Rightarrow> bool" where
  "references t c = (case col_fk c of Some (tgt, a) \<Rightarrow> tgt = t @ ''.id'' | None \<Rightarrow> False)"

fun foreign_column :: "cond list \<Rightarrow> string option" where
  "foreign_column [] = None"
| "foreign_column (ForeignEqId c # cs) = Some c"
| "foreign_column (ColEqLit c l # cs) = foreign_column cs"

definition direction :: "model \<Rightarrow> relationship \<Rightarrow> direction option" where
  "direction m rel =
     (case rel_secondary rel of
        Some s \<Rightarrow>
          (case map_of tables s of
             None \<Rightarrow> None
           | Some cs \<Rightarrow>
               (case (find (references (tablename m)) cs,
                      find (references (tablename (rel_argument rel))) cs) of
                  (Some a, Some b) \<Rightarrow> Some (MANYTOMANY s (col_name a) (col_name b))
                | _ \<Rightarrow> None))
      | None \<Rightarrow>
          (case rel_primaryjoin rel of
             Some conds \<Rightarrow> map_option ONETOMANY (foreign_column conds)
           | None \<Rightarrow>
               (case find (references (tablename m)) (columns (rel_argument rel)) of
                  Some c \<Rightarrow> Some (ONETOMANY (col_name c))
                | None \<Rightarrow>
                    (case find (references (tablename (rel_argument rel))) (columns m) of
                       Some c \<Rightarrow> Some (MANYTOONE (col_name c))
                     | None \<Rightarrow> None))))"

fun literal_holds :: "row \<Rightarrow> cond \<Rightarrow> bool" where
  "literal_holds t (ForeignEqId c) = True"
| "literal_holds t (ColEqLit c l) = (map_of t c = Some (VStr l))"

definition literals_hold :: "relationship \<Rightarrow> row \<Rightarrow> bool" where
  "literals_hold rel t =
     (case rel_primaryjoin rel of Some conds \<Rightarrow> list_all (literal_holds t) conds | None \<Rightarrow> True)"

text \<open>Whether row \<open>t\<close> of the target class is joined to the owner \<open>(m, r)\<close>. \<open>NULL\<close> joins nothing.\<close>

definition joined :: "store \<Rightarrow> obj \<Rightarrow> relationship \<Rightarrow> row \<Rightarrow> bool" where
  "joined st x rel t =
     (case direction (fst x) rel of
        None \<Rightarrow> False
      | Some (ONETOMANY c) \<Rightarrow>
          map_of (snd x) ''id'' \<noteq> None \<and> map_of t c = map_of (snd x) ''id'' \<and> literals_hold rel t
      | Some (MANYTOONE c) \<Rightarrow>
          map_of (snd x) c \<noteq> None \<and> map_of t ''id'' = map_of (snd x) c
      | Some (MANYTOMANY s a b) \<Rightarrow>
          list_ex (\<lambda>(s', l). s' = s \<and>
                      map_of l a \<noteq> None \<and> map_of l a = map_of (snd x) ''id'' \<and>
                      map_of l b \<noteq> None \<and> map_of l b = map_of t ''id'')
            (links st))"

definition related :: "store \<Rightarrow> obj \<Rightarrow> relationship \<Rightarrow> obj list" where
  "related st x rel =
     filter (\<lambda>y. fst y = rel_argument rel \<and> joined st x rel (snd y)) (objects st)"

text \<open>
  A query without \<open>ORDER BY\<close> returns its rows in an order the database chooses. That
  choice is a parameter of the load, a function that arranges the rows it is given.
\<close>

type_synonym row_order = "obj list \<Rightarrow> obj list"

text \<open>
  The time stored in a column of an object, and the result of a load: sorted, newest
  first, when the relationship has \<open>order_by="desc(...)"\<close>, and in the order the database
  chooses when it has no \<open>order_by\<close>.
\<close>

definition time_of :: "string \<Rightarrow> obj \<Rightarrow> nat" where
  "time_of c y = (case map_of (snd y) c of Some (VTime t) \<Rightarrow> t | _ \<Rightarrow> 0)"

definition load :: "row_order \<Rightarrow> store \<Rightarrow> obj \<Rightarrow> relationship \<Rightarrow> obj list" where
  "load scan st x rel =
     (case rel_order_by rel of
        None \<Rightarrow> scan (related st x rel)
      | Some (Desc c) \<Rightarrow> sort_key (\<lambda>y. - int (time_of c y)) (related st x rel))"

text \<open>\<open>owner.rel.append(child)\<close> on a relationship with a \<open>secondary\<close>: one association row.\<close>

definition append_link :: "obj \<Rightarrow> relationship \<Rightarrow> obj \<Rightarrow> store \<Rightarrow> store" where
  "append_link x rel y st =
     (case (direction (fst x) rel, map_of (snd x) ''id'', map_of (snd y) ''id'') of
        (Some (MANYTOMANY s a b), Some i, Some j) \<Rightarrow>
          st\<lparr>links := links st @ [(s, [(a, i), (b, j)])]\<rparr>
      | _ \<Rightarrow> st)"

subsection \<open>Deleting a record\<close>

text \<open>
  A relationship carries a deletion to its target when its cascade holds \<open>delete\<close>, alone
  or as part of \<open>all\<close>, and it is not view-only. The database adds the rows whose foreign
  key to the deleted row is declared \<open>ondelete="CASCADE"\<close>.
\<close>

definition cascades_delete :: "relationship \<Rightarrow> bool" where
  "cascades_delete rel =
     (\<not> rel_viewonly rel \<and> (''all'' \<in> set (rel_cascade rel) \<or> ''delete'' \<in> set (rel_cascade rel)))"

definition ondelete_cascade :: "string \<Rightarrow> column \<Rightarrow> bool" where
  "ondelete_cascade t c = (col_fk c = Some (t @ ''.id'', Some ''CASCADE''))"

definition db_cascade :: "store \<Rightarrow> obj \<Rightarrow> obj list" where
  "db_cascade st x =
     filter (\<lambda>y. list_ex (\<lambda>c. ondelete_cascade (tablename (fst x)) c \<and>
                              map_of (snd x) ''id'' \<noteq> None \<and>
                              map_of (snd y) (col_name c) = map_of (snd x) ''id'')
                    (columns (fst y)))
       (objects st)"

definition cascade_targets :: "store \<Rightarrow> obj \<Rightarrow> obj list" where
  "cascade_targets st x =
     concat (map (related st x) (filter cascades_delete (relationships (fst x)))) @
     db_cascade st x"

text \<open>
  Everything a deletion reaches: the objects of the store found from the first one by
  following cascade targets, each visited once.
\<close>

function cascade_closure :: "store \<Rightarrow> obj list \<Rightarrow> obj list \<Rightarrow> obj list" where
  "cascade_closure st [] seen = seen"
| "cascade_closure st (x # todo) seen =
     (if x \<in> set seen \<or> x \<notin> set (objects st) then cascade_closure st todo seen
      else cascade_closure st (cascade_targets st x @ todo) (x # seen))"
  by pat_completeness auto
termination
proof (relation "measures [\<lambda>(st, todo, seen). card (set (objects st) - set seen),
                           \<lambda>(st, todo, seen). length todo]", goal_cases)
  case 1
  show ?case by simp
next
  case (2 st x todo seen)
  show ?case by simp
next
  case (3 st x todo seen)
  then have "x \<in> set (objects st) - set seen" by simp
  then have "card (set (objects st) - set seen - {x}) < card (set (objects st) - set seen)"
    by (intro card_Diff1_less) auto
  moreover have "set (objects st) - set (x # seen) = set (objects st) - set seen - {x}"
    by auto
  ultimately show ?case by simp
qed

text \<open>
  For an object that stays, the columns the unit of work blanks: the foreign key of every
  one-to-many relationship through which a deleted object holds it.
\<close>

definition blanked :: "store \<Rightarrow> obj list \<Rightarrow> obj \<Rightarrow> string list" where
  "blanked st gone y =
     concat (map (\<lambda>x. concat (map (\<lambda>rel.
        (case direction (fst x) rel of
           Some (ONETOMANY c) \<Rightarrow>
             (if \<not> rel_viewonly rel \<and> y \<in> set (related st x rel) then [c] else [])
         | _ \<Rightarrow> [])) (relationships (fst x)))) gone)"

definition blank :: "store \<Rightarrow> obj list \<Rightarrow> obj \<Rightarrow> obj" where
  "blank st gone y = (fst y, filter (\<lambda>kv. fst kv \<notin> set (blanked st gone y)) (snd y))"

definition blanks_required :: "store \<Rightarrow> obj list \<Rightarrow> obj \<Rightarrow> bool" where
  "blanks_required st gone y =
     list_ex (\<lambda>n. case column_named (fst y) n of Some c \<Rightarrow> \<not> is_nullable c | None \<Rightarrow> False)
       (blanked st gone y)"

text \<open>A value that still points at a deleted row, in a kept object or association row.\<close>

definition points_at :: "obj list \<Rightarrow> row \<Rightarrow> column \<Rightarrow> bool" where
  "points_at gone r c =
     list_ex (\<lambda>x. references (tablename (fst x)) c \<and> map_of (snd x) ''id'' \<noteq> None \<and>
                  map_of r (col_name c) = map_of (snd x) ''id'') gone"

definition dangling :: "obj list \<Rightarrow> obj \<Rightarrow> bool" where
  "dangling gone y = list_ex (points_at gone (snd y)) (columns (fst y))"

definition dangling_link :: "obj list \<Rightarrow> string \<times> row \<Rightarrow> bool" where
  "dangling_link gone l =
     (case map_of tables (fst l) of
        Some cs \<Rightarrow> list_ex (points_at gone (snd l)) cs
      | None \<Rightarrow> False)"

text \<open>The association rows a deleted object owns through one of its relationships.\<close>

definition unlinked :: "obj list \<Rightarrow> string \<times> row \<Rightarrow> bool" where
  "unlinked gone l =
     list_ex (\<lambda>x. list_ex (\<lambda>rel.
        (case direction (fst x) rel of
           Some (MANYTOMANY s a b) \<Rightarrow>
             \<not> rel_viewonly rel \<and> s = fst l \<and> map_of (snd x) ''id'' \<noteq> None \<and>
             map_of (snd l) a = map_of (snd x) ''id''
         | _ \<Rightarrow> False)) (relationships (fst x))) gone"

text \<open>
  Deleting an object deletes everything its cascades reach, removes the association
  rows of the deleted objects and blanks the foreign keys of the children that stay. The
  whole deletion is refused, and the store left as it was, when a column that must be
  blanked is not nullable or a reference to a deleted row would remain.
\<close>

definition delete :: "store \<Rightarrow> obj \<Rightarrow> error + store" where
  "delete st x =
     (if x \<notin> set (objects st) then Inl NotPersisted
      else
        let gone = cascade_closure st [x] [];
            kept = filter (\<lambda>y. y \<notin> set gone) (objects st);
            kept_links = filter (\<lambda>l. \<not> unlinked gone l) (links st)
        in if list_ex (blanks_required st gone) kept
              \<or> list_ex (dangling gone) (map (blank st gone) kept)
              \<or> list_ex (dangling_link gone) kept_links
           then Inl CascadeConflict
           else Inr \<lparr>objects = map (blank st gone) kept, links = kept_links\<rparr>)"

text \<open>Attribute access \<open>x.n\<close> for a relationship \<open>n\<close> of the class of \<open>x\<close>.\<close>

definition attribute :: "row_order \<Rightarrow> store \<Rightarrow> obj \<Rightarrow> string \<Rightarrow> obj list" where
  "attribute scan st x n =
     (case find (\<lambda>rel. rel_name rel = n) (relationships (fst x)) of
        Some rel \<Rightarrow> load scan st x rel
      | None \<Rightarrow> [])"

text \<open>The rows that make up \<open>x.n\<close>, for uses in which their order plays no part.\<close>

definition members :: "store \<Rightarrow> obj \<Rightarrow> string \<Rightarrow> obj list" where
  "members st x n =
     (case find (\<lambda>rel. rel_name rel = n) (relationships (fst x)) of
        Some rel \<Rightarrow> related st x rel
      | None \<Rightarrow> [])"

text \<open>\<open>x.n.append(y)\<close> for a relationship \<open>n\<close> of the class of \<open>x\<close>.\<close>

definition attribute_append :: "store \<Rightarrow> obj \<Rightarrow> string \<Rightarrow> obj \<Rightarrow> store" where
  "attribute_append st x n y =
     (case find (\<lambda>rel. rel_name rel = n) (relationships (fst x)) of
        Some rel \<Rightarrow> append_link x rel y st
      | None \<Rightarrow> st)"

section \<open>What the declarations say about \<open>name\<close>\<close>

definition name_unique :: "model \<Rightarrow> bool" where
  "name_unique m = (case column_named m ''name'' of Some c \<Rightarrow> col_unique c | None \<Rightarrow> False)"

definition name_required :: "model \<Rightarrow> bool" where
  "name_required m = (case column_named m ''name'' of Some c \<Rightarrow> \<not> is_nullable c | None \<Rightarrow> False)"

section \<open>The children of a processor\<close>

definition children :: "model \<Rightarrow> store \<Rightarrow> val \<Rightarrow> obj list" where
  "children m st i =
     filter (\<lambda>y. fst y = m \<and> map_of (snd y) ''processor_id'' = Some i) (objects st)"

section \<open>Authorization\<close>

text \<open>
  Modelled from the spec: the decision procedure \<open>authorize\<close> is not part of the module,
  which declares only the three relationships \<open>privileges\<close>, \<open>revoked\<close> and \<open>roles\<close> of
  \<open>UserModel\<close> and \<open>privileges\<close> of \<open>RoleModel\<close>. The procedure follows section 4.3:
  (1) the effective grant set is the actor's direct privileges together with the
  privileges of every role the actor holds; (2) the revoked set is subtracted from it,
  and revocation always wins, however the privilege was granted; (3) \<open>ALL\<close> in the
  resulting set grants every action, otherwise the action must match an entry of the
  resulting set by name; (4) otherwise the action is denied. Where steps 2 and 3 meet,
  on an action that is revoked for an actor who holds \<open>ALL\<close>, step 2 decides, as section 8
  and the glossary also say: the revoked action is denied before \<open>ALL\<close> is looked at. A
  privilege counts as the right it carries.
\<close>

datatype decision = Allow | Deny

fun right_of :: "obj \<Rightarrow> string list" where
  "right_of (m, r) = (case map_of r ''right'' of Some (VStr s) \<Rightarrow> [s] | _ \<Rightarrow> [])"

definition rights_of :: "obj list \<Rightarrow> string list" where
  "rights_of ps = concat (map right_of ps)"

definition grant_set :: "store \<Rightarrow> obj \<Rightarrow> string list" where
  "grant_set st actor =
     rights_of (members st actor ''privileges'') @
     concat (map (\<lambda>role. rights_of (members st role ''privileges''))
                 (members st actor ''roles''))"

definition revoked_set :: "store \<Rightarrow> obj \<Rightarrow> string list" where
  "revoked_set st actor = rights_of (members st actor ''revoked'')"

definition resulting_set :: "store \<Rightarrow> obj \<Rightarrow> string list" where
  "resulting_set st actor =
     filter (\<lambda>p. p \<notin> set (revoked_set st actor)) (grant_set st actor)"

definition authorize :: "store \<Rightarrow> obj \<Rightarrow> string \<Rightarrow> 'r \<Rightarrow> decision" where
  "authorize st actor action resource =
     (if action \<in> set (revoked_set st actor) then Deny
      else if ''ALL'' \<in> set (resulting_set st actor) then Allow
      else if action \<in> set (resulting_set st actor) then Allow
      else Deny)"

text \<open>
  What the association tables hold: a row of \<open>user_privileges_revoked\<close> that ties a
  privilege to an actor, and a row of \<open>calls_events\<close> that ties an event to a call.
\<close>

definition tied :: "store \<Rightarrow> string \<Rightarrow> string \<Rightarrow> obj \<Rightarrow> string \<Rightarrow> obj \<Rightarrow> bool" where
  "tied st s a x b y =
     list_ex (\<lambda>(s', l). s' = s \<and>
                 map_of l a \<noteq> None \<and> map_of l a = map_of (snd x) ''id'' \<and>
                 map_of l b \<noteq> None \<and> map_of l b = map_of (snd y) ''id'')
       (links st)"

definition revokes :: "store \<Rightarrow> obj \<Rightarrow> obj \<Rightarrow> bool" where
  "revokes st actor p = tied st ''user_privileges_revoked'' ''user_id'' actor ''privilege_id'' p"

definition in_calls_events :: "store \<Rightarrow> obj \<Rightarrow> obj \<Rightarrow> bool" where
  "in_calls_events st call ev = tied st ''calls_events'' ''call_id'' call ''event_id'' ev"

section \<open>Invoking the task of a socket\<close>

text \<open>
  Modelled from the spec: the runtime that invokes the Task of a Socket is not part of the
  module, which only declares the column \<open>wait\<close> under the comment "Wait for all
  sourceplugs to deliver their data before invoking the task". By section 4.1, with
  \<open>wait = true\<close> the Task is invoked only once every source Plug has delivered, and with
  \<open>wait = false\<close> it fires on each arriving delivery. \<open>sources\<close> are the source plugs of
  the socket and \<open>delivered\<close> those that have delivered, the arriving one included.
\<close>

definition fires_on_delivery :: "obj \<Rightarrow> string list \<Rightarrow> string list \<Rightarrow> bool" where
  "fires_on_delivery sock sources delivered =
     (if map_of (snd sock) ''wait'' = Some (VBool True)
      then list_all (\<lambda>p. p \<in> set delivered) sources
      else True)"

section \<open>Sample data\<close>

definition env0 :: env where
  "env0 = \<lparr>env_now = 7, env_uuid = (\<lambda>n. ''generated-'' @ n), env_user = ''postgres''\<rparr>"

text \<open>A database that returns the rows of a query in the order the table holds them.\<close>

definition table_order :: row_order where
  "table_order xs = xs"

definition env1 :: env where
  "env1 = \<lparr>env_now = 9, env_uuid = (\<lambda>n. ''generated-'' @ n), env_user = ''postgres''\<rparr>"

text \<open>Two roles, then two calls, of the same name.\<close>

definition role_a :: row where
  "role_a = [(''id'', VStr ''r1''), (''name'', VStr ''editor'')]"

definition role_b :: row where
  "role_b = [(''id'', VStr ''r2''), (''name'', VStr ''editor'')]"

definition call_a :: row where
  "call_a = [(''id'', VStr ''c1''), (''name'', VStr ''add''),
             (''task_id'', VStr ''t1''), (''socket_id'', VStr ''s1'')]"

definition call_b :: row where
  "call_b = [(''id'', VStr ''c2''), (''name'', VStr ''add''),
             (''task_id'', VStr ''t1''), (''socket_id'', VStr ''s1'')]"

text \<open>A user, a socket and a privilege as a caller would give them.\<close>

definition user_a :: row where
  "user_a = [(''id'', VStr ''u1''), (''name'', VStr ''alice''),
             (''email'', VStr ''alice@example.org''), (''password'', VStr ''$2b$12$hash''),
             (''clear'', VStr ''secret'')]"

definition socket_a :: row where
  "socket_a = [(''id'', VStr ''s1''), (''name'', VStr ''in''),
               (''processor_id'', VStr ''p1''), (''user_id'', VStr ''u1'')]"

definition privilege_ls :: row where
  "privilege_ls = [(''id'', VStr ''v1''), (''name'', VStr ''list processors''),
                   (''right'', VStr ''LS_PROCESSORS'')]"

text \<open>
  Alice holds the role \<open>editor\<close>, which grants \<open>READ\<close> and \<open>UPDATE\<close>, and \<open>UPDATE\<close> is
  revoked for her (the example of the spec). In the second store she also holds \<open>ALL\<close>
  directly.
\<close>

definition alice :: obj where
  "alice = (UserModel, [(''id'', VStr ''u1''), (''name'', VStr ''alice'')])"

definition privilege_update :: obj where
  "privilege_update =
     (PrivilegeModel, [(''id'', VStr ''v2''), (''name'', VStr ''update''), (''right'', VStr ''UPDATE'')])"

definition acl_objects :: "obj list" where
  "acl_objects =
     [alice,
      (RoleModel, [(''id'', VStr ''r1''), (''name'', VStr ''editor'')]),
      (PrivilegeModel, [(''id'', VStr ''v1''), (''name'', VStr ''read''), (''right'', VStr ''READ'')]),
      privilege_update,
      (PrivilegeModel, [(''id'', VStr ''v3''), (''name'', VStr ''all''), (''right'', VStr ''ALL'')])]"

definition acl_links :: "(string \<times> row) list" where
  "acl_links =
     [(''user_roles'', [(''user_id'', VStr ''u1''), (''role_id'', VStr ''r1'')]),
      (''role_privileges'', [(''role_id'', VStr ''r1''), (''privilege_id'', VStr ''v1'')]),
      (''role_privileges'', [(''role_id'', VStr ''r1''), (''privilege_id'', VStr ''v2'')]),
      (''user_privileges_revoked'', [(''user_id'', VStr ''u1''), (''privilege_id'', VStr ''v2'')])]"

definition acl_editor :: store where
  "acl_editor = \<lparr>objects = acl_objects, links = acl_links\<rparr>"

definition acl_all :: store where
  "acl_all =
     \<lparr>objects = acl_objects,
      links = acl_links @
        [(''user_privileges'', [(''user_id'', VStr ''u1''), (''privilege_id'', VStr ''v3'')])]\<rparr>"

text \<open>Two sockets of two processors bound to the same task.\<close>

definition socket_s1 :: obj where
  "socket_s1 = (SocketModel, [(''id'', VStr ''s1''), (''name'', VStr ''in''),
                              (''processor_id'', VStr ''p1''), (''task_id'', VStr ''t1'')])"

definition socket_s2 :: obj where
  "socket_s2 = (SocketModel, [(''id'', VStr ''s2''), (''name'', VStr ''in2''),
                              (''processor_id'', VStr ''p2''), (''task_id'', VStr ''t1'')])"

definition task_t1 :: obj where
  "task_t1 = (TaskModel, [(''id'', VStr ''t1''), (''name'', VStr ''add'')])"

definition shared_task :: store where
  "shared_task = \<lparr>objects = [task_t1, socket_s1, socket_s2], links = []\<rparr>"

text \<open>
  A processor with one plug, two sockets and one deployment, beside a second processor
  with a plug of its own.
\<close>

definition processor_p1 :: obj where
  "processor_p1 = (ProcessorModel, [(''id'', VStr ''p1''), (''name'', VStr ''adder'')])"

definition plant :: store where
  "plant =
     \<lparr>objects =
        [processor_p1,
         (ProcessorModel, [(''id'', VStr ''p2''), (''name'', VStr ''printer'')]),
         (PlugModel, [(''id'', VStr ''g1''), (''name'', VStr ''out''), (''processor_id'', VStr ''p1'')]),
         (PlugModel, [(''id'', VStr ''g2''), (''name'', VStr ''out2''), (''processor_id'', VStr ''p2'')]),
         (SocketModel, [(''id'', VStr ''s1''), (''name'', VStr ''in''), (''processor_id'', VStr ''p1'')]),
         (SocketModel, [(''id'', VStr ''s3''), (''name'', VStr ''in3''), (''processor_id'', VStr ''p1'')]),
         (DeploymentModel, [(''id'', VStr ''d1''), (''name'', VStr ''dep''), (''processor_id'', VStr ''p1'')])],
      links = [(''plugs_source_sockets'', [(''plug_id'', VStr ''g1''), (''socket_id'', VStr ''s1'')])]\<rparr>"

text \<open>A call with two events, the older one inserted first.\<close>

definition call_c1 :: obj where
  "call_c1 = (CallModel, [(''id'', VStr ''c1''), (''name'', VStr ''add'')])"

definition event_old :: obj where
  "event_old = (EventModel, [(''id'', VStr ''e1''), (''name'', VStr ''received''),
                             (''note'', VStr ''received''), (''created'', VTime 1)])"

definition event_new :: obj where
  "event_new = (EventModel, [(''id'', VStr ''e2''), (''name'', VStr ''postrun''),
                             (''note'', VStr ''postrun''), (''created'', VTime 2)])"

definition ledger :: store where
  "ledger =
     \<lparr>objects = [call_c1, event_old, event_new],
      links = [(''calls_events'', [(''call_id'', VStr ''c1''), (''event_id'', VStr ''e1'')]),
               (''calls_events'', [(''call_id'', VStr ''c1''), (''event_id'', VStr ''e2'')])]\<rparr>"

definition event_c :: row where
  "event_c = [(''id'', VStr ''e3''), (''name'', VStr ''prerun''), (''note'', VStr ''prerun'')]"

text \<open>
  A user and a processor that happen to carry the same identifier, a login of the user,
  and two log entries under that identifier, one tagged for each class.
\<close>

definition user_x :: obj where
  "user_x = (UserModel, [(''id'', VStr ''x1''), (''name'', VStr ''alice'')])"

definition processor_x :: obj where
  "processor_x = (ProcessorModel, [(''id'', VStr ''x1''), (''name'', VStr ''adder'')])"

definition login_x :: obj where
  "login_x = (LoginModel, [(''id'', VStr ''l1''), (''token'', VStr ''k1''),
                           (''user_id'', VStr ''x1''), (''created'', VTime 3)])"

definition log_processor :: obj where
  "log_processor = (LogModel, [(''id'', VStr ''m1''), (''oid'', VStr ''x1''),
                               (''discriminator'', VStr ''ProcessorModel''),
                               (''text'', VStr ''started''), (''created'', VTime 4)])"

definition log_user :: obj where
  "log_user = (LogModel, [(''id'', VStr ''m2''), (''oid'', VStr ''x1''),
                          (''discriminator'', VStr ''UserModel''),
                          (''text'', VStr ''logged in''), (''created'', VTime 5)])"

definition audit :: store where
  "audit = \<lparr>objects = [user_x, processor_x, login_x, log_processor, log_user], links = []\<rparr>"

text \<open>The stores that creating the sample rows in the empty store gives.\<close>

definition stamped :: "nat \<Rightarrow> row \<Rightarrow> row" where
  "stamped u r = r @ [(''owner'', VStr ''postgres''), (''status'', VStr ''ready''),
                      (''requested_status'', VStr ''ready''),
                      (''created'', VTime 7), (''lastupdated'', VTime u)]"

definition based :: "row \<Rightarrow> row" where
  "based r = stamped 7 r"

definition roles1 :: store where
  "roles1 =
     \<lparr>objects = [(RoleModel, based [(''id'', VStr ''r1''), (''name'', VStr ''editor'')])],
      links = []\<rparr>"

definition call_row :: "string \<Rightarrow> row" where
  "call_row i =
     based [(''name'', VStr ''add''), (''task_id'', VStr ''t1''), (''started'', VTime 7),
            (''socket_id'', VStr ''s1''), (''id'', VStr i)]"

definition calls1 :: store where
  "calls1 = \<lparr>objects = [(CallModel, call_row ''c1'')], links = []\<rparr>"

definition calls2 :: store where
  "calls2 = \<lparr>objects = [(CallModel, call_row ''c1''), (CallModel, call_row ''c2'')], links = []\<rparr>"

definition users1 :: store where
  "users1 =
     \<lparr>objects =
        [(UserModel,
          based [(''email'', VStr ''alice@example.org''), (''password'', VStr ''$2b$12$hash''),
                 (''clear'', VStr ''secret''), (''id'', VStr ''u1''), (''name'', VStr ''alice'')])],
      links = []\<rparr>"

definition sockets1 :: store where
  "sockets1 =
     \<lparr>objects =
        [(SocketModel,
          based [(''processor_id'', VStr ''p1''), (''description'', VStr ''Some description''),
                 (''user_id'', VStr ''u1''), (''wait'', VBool False),
                 (''id'', VStr ''s1''), (''name'', VStr ''in'')])],
      links = []\<rparr>"

text \<open>What the deletions and the creation used below leave behind.\<close>

definition shared_task_after :: store where
  "shared_task_after =
     \<lparr>objects = [(SocketModel, [(''id'', VStr ''s2''), (''name'', VStr ''in2''),
                                (''processor_id'', VStr ''p2'')])],
      links = []\<rparr>"

definition plant_after :: store where
  "plant_after =
     \<lparr>objects =
        [(ProcessorModel, [(''id'', VStr ''p2''), (''name'', VStr ''printer'')]),
         (PlugModel, [(''id'', VStr ''g2''), (''name'', VStr ''out2''), (''processor_id'', VStr ''p2'')])],
      links = []\<rparr>"

definition event_c_stored :: obj where
  "event_c_stored =
     (EventModel, based [(''note'', VStr ''prerun''), (''name'', VStr ''prerun''), (''id'', VStr ''e3'')])"

definition ledger1 :: store where
  "ledger1 = ledger\<lparr>objects := [call_c1, event_old, event_new, event_c_stored]\<rparr>"

text \<open>
  A call created in state \<open>CREATED\<close>, and the same call after an update at time 9 that
  sets its state; the third event after an update at time 9 that changes its note.
\<close>

definition call_in_state :: "string \<Rightarrow> nat \<Rightarrow> obj" where
  "call_in_state s u =
     (CallModel,
      stamped u [(''name'', VStr ''add''), (''state'', VStr s), (''task_id'', VStr ''t1''),
                 (''started'', VTime 7), (''socket_id'', VStr ''s1''), (''id'', VStr ''c1'')])"

definition calls_created :: store where
  "calls_created = \<lparr>objects = [call_in_state ''CREATED'' 7], links = []\<rparr>"

definition calls_success :: store where
  "calls_success = \<lparr>objects = [call_in_state ''SUCCESS'' 9], links = []\<rparr>"

definition event_c_changed :: obj where
  "event_c_changed =
     (EventModel, stamped 9 [(''note'', VStr ''changed''), (''name'', VStr ''prerun''), (''id'', VStr ''e3'')])"

definition ledger2 :: store where
  "ledger2 = ledger\<lparr>objects := [call_c1, event_old, event_new, event_c_changed]\<rparr>"

text \<open>
  Three relationships of the module by name: \<open>UserModel.revoked\<close>, \<open>CallModel.events\<close>
  and \<open>SocketModel.task\<close>.
\<close>

definition UserModel_revoked :: relationship where
  "UserModel_revoked =
     (relationship ''revoked'' PrivilegeModel)\<lparr>rel_secondary := Some ''user_privileges_revoked''\<rparr>"

definition CallModel_events :: relationship where
  "CallModel_events =
     (relationship ''events'' EventModel)
       \<lparr>rel_secondary := Some ''calls_events'', rel_cascade := [''all'', ''delete'']\<rparr>"

definition SocketModel_task :: relationship where
  "SocketModel_task =
     (relationship ''task'' TaskModel)
       \<lparr>rel_back_populates := Some ''sockets'', rel_single_parent := True,
        rel_cascade := [''delete'', ''delete-orphan'']\<rparr>"

section \<open>Properties\<close>

subsection \<open>Facts about every class\<close>

lemma all_models_complete: "m \<in> set all_models"
  by (cases m) (simp_all add: all_models_def)

lemma columns_distinct_all: "list_all (\<lambda>m. distinct (map col_name (columns m))) all_models"
  by code_simp

lemma columns_distinct: "distinct (map col_name (columns m))"
  using columns_distinct_all all_models_complete [of m] by (simp add: list_all_iff)

lemma column_named_SomeD:
  "column_named m n = Some c \<Longrightarrow> c \<in> set (columns m) \<and> col_name c = n"
  unfolding column_named_def by (auto simp: find_Some_iff)

subsection \<open>The row a creation stores\<close>

lemma map_filter_absent:
  "n \<notin> key ` set cs \<Longrightarrow>
   map_of (List.map_filter (\<lambda>c. map_option (Pair (key c)) (f c)) cs) n = None"
  by (induction cs) (auto split: option.splits)

lemma map_of_map_filter:
  "distinct (map key cs) \<Longrightarrow>
   map_of (List.map_filter (\<lambda>c. map_option (Pair (key c)) (f c)) cs) n =
     (case find (\<lambda>c. key c = n) cs of None \<Rightarrow> None | Some c \<Rightarrow> f c)"
proof (induction cs)
  case Nil
  show ?case by simp
next
  case (Cons c cs)
  show ?case
  proof (cases "key c = n")
    case True
    with Cons.prems have "n \<notin> key ` set cs" by auto
    then have "map_of (List.map_filter (\<lambda>c. map_option (Pair (key c)) (f c)) cs) n = None"
      by (rule map_filter_absent)
    with True show ?thesis
      by (cases "f c") simp_all
  next
    case False
    with Cons show ?thesis
      by (cases "f c") simp_all
  qed
qed

lemma map_of_new_row:
  "map_of (new_row e m kw) n =
     (case column_named m n of None \<Rightarrow> None | Some c \<Rightarrow> insert_value e kw c)"
  unfolding new_row_def column_named_def
  by (rule map_of_map_filter) (rule columns_distinct)

lemma create_InrD:
  assumes "create e m kw st = Inr st'"
  shows "violations st m (new_row e m kw) = []"
    and "st' = st\<lparr>objects := objects st @ [(m, new_row e m kw)]\<rparr>"
  using assms unfolding create_def by (auto split: list.splits)

lemma create_Inl_iff:
  "(\<exists>v. create e m kw st = Inl (ValidationError v)) \<longleftrightarrow> violations st m (new_row e m kw) \<noteq> []"
  unfolding create_def by (auto split: list.splits)

lemma violations_column:
  "violations st m r = [] \<Longrightarrow> c \<in> set (columns m) \<Longrightarrow> column_violations st m r c = []"
  unfolding violations_def by auto

lemma created_last:
  assumes "create e m kw st = Inr st'"
  shows "last (objects st') = (m, new_row e m kw)"
  using create_InrD(2) [OF assms] by simp

lemma created_value:
  assumes "create e m kw st = Inr st'" and "column_named m n = Some c"
  shows "map_of (snd (last (objects st'))) n = insert_value e kw c"
  using assms by (simp add: created_last map_of_new_row)

lemma given_value: "map_of kw (col_name c) = Some v \<Longrightarrow> insert_value e kw c = Some v"
  by (simp add: insert_value_def)

lemma taken_append:
  "map_of r n = Some v \<Longrightarrow> taken (st\<lparr>objects := objects st @ [(m, r)]\<rparr>) m n v"
  by (simp add: taken_def)

subsection \<open>The row an update stores\<close>

lemma unchanged_value:
  assumes "\<not> changed m r ch" and "column_named m n = Some c"
  shows "(case map_of ch n of Some v \<Rightarrow> Some v | None \<Rightarrow> map_of r n) = map_of r n"
proof -
  from assms(2) have "c \<in> set (columns m)" and "col_name c = n"
    by (auto dest: column_named_SomeD)
  with assms(1) show ?thesis
    by (auto simp: changed_def list_ex_iff split: option.splits)
qed

lemma changedI:
  assumes "column_named m n = Some c" and "map_of ch n = Some v" and "map_of r n \<noteq> Some v"
  shows "changed m r ch"
proof -
  from assms(1) have "c \<in> set (columns m)" and "col_name c = n"
    by (auto dest: column_named_SomeD)
  with assms(2,3) show ?thesis
    by (auto simp: changed_def list_ex_iff split: option.splits)
qed

lemma map_of_updated_row_changed:
  assumes "changed m r ch"
  shows "map_of (updated_row e m r ch) n =
           (case column_named m n of None \<Rightarrow> None | Some c \<Rightarrow> update_value e r ch c)"
proof -
  have "map_of (List.map_filter (\<lambda>c. map_option (Pair (col_name c)) (update_value e r ch c))
                  (columns m)) n =
          (case find (\<lambda>c. col_name c = n) (columns m) of
             None \<Rightarrow> None | Some c \<Rightarrow> update_value e r ch c)"
    by (rule map_of_map_filter) (rule columns_distinct)
  with assms show ?thesis
    by (simp add: updated_row_def column_named_def)
qed

lemma map_of_updated_row_plain:
  assumes c: "column_named m n = Some c" and p: "col_onupdate c = None"
  shows "map_of (updated_row e m r ch) n =
           (case map_of ch n of Some v \<Rightarrow> Some v | None \<Rightarrow> map_of r n)"
proof (cases "changed m r ch")
  case True
  from c have "col_name c = n" by (auto dest: column_named_SomeD)
  with True c p show ?thesis
    by (simp add: map_of_updated_row_changed update_value_def split: option.splits)
next
  case False
  then have "updated_row e m r ch = r" by (simp add: updated_row_def)
  with unchanged_value [OF False c] show ?thesis by simp
qed

lemma update_InrD:
  assumes "update e x ch st = Inr st'"
  shows "x \<in> set (objects st)"
    and "objects st' =
           map (\<lambda>y. if y = x then (fst x, updated_row e (fst x) (snd x) ch) else y) (objects st)"
proof -
  show "x \<in> set (objects st)"
    using assms by (auto simp: update_def split: if_splits)
  show "objects st' =
          map (\<lambda>y. if y = x then (fst x, updated_row e (fst x) (snd x) ch) else y) (objects st)"
  proof (cases "changed (fst x) (snd x) ch")
    case True
    with assms show ?thesis
      by (auto simp: update_def split: if_splits list.splits)
  next
    case False
    with assms have "st' = st"
      by (auto simp: update_def split: if_splits)
    moreover from False have "updated_row e (fst x) (snd x) ch = snd x"
      by (simp add: updated_row_def)
    ultimately show ?thesis
      by (simp add: map_idI)
  qed
qed

lemma updated_in_store:
  assumes "update e x ch st = Inr st'"
  shows "(fst x, updated_row e (fst x) (snd x) ch) \<in> set (objects st')"
proof -
  from update_InrD(1) [OF assms] have "x \<in> set (objects st)" .
  then show ?thesis
    unfolding update_InrD(2) [OF assms] by (force simp: image_iff)
qed

subsection \<open>The privilege rights\<close>

text \<open>
  C2. The enumeration of rights is meant to hold \<open>EDIT_PROCESSOR_CODE\<close> and
  \<open>LS_PROCESSORS\<close> as two members. In the list of the module neither is a member: the
  two literals are joined into the single member \<open>EDIT_PROCESSOR_CODELS_PROCESSORS\<close>, and
  a Privilege whose right is \<open>LS_PROCESSORS\<close> is refused by the enumeration.
\<close>

theorem rights_joins_two_literals:
  "''EDIT_PROCESSOR_CODE'' \<notin> set rights \<and> ''LS_PROCESSORS'' \<notin> set rights \<and>
   ''EDIT_PROCESSOR_CODELS_PROCESSORS'' \<in> set rights \<and>
   create env0 PrivilegeModel privilege_ls empty_store = Inl (ValidationError (NotInEnum ''right''))"
  by code_simp

subsection \<open>Uniqueness of names\<close>

lemma name_unique_iff_all:
  "list_all (\<lambda>m. name_unique m \<longleftrightarrow>
      m \<notin> {VersionModel, DeploymentModel, CallModel, ArgumentModel, EventModel,
            LogModel, JobModel, LoginModel}) all_models"
  by code_simp

lemma name_unique_iff:
  "name_unique m \<longleftrightarrow>
     m \<notin> {VersionModel, DeploymentModel, CallModel, ArgumentModel, EventModel,
           LogModel, JobModel, LoginModel}"
  using name_unique_iff_all all_models_complete [of m] unfolding list_all_iff by blast

lemma name_required_iff_all:
  "list_all (\<lambda>m. name_required m \<longleftrightarrow> m \<notin> {LogModel, JobModel, LoginModel}) all_models"
  by code_simp

lemma name_required_iff: "name_required m \<longleftrightarrow> m \<notin> {LogModel, JobModel, LoginModel}"
  using name_required_iff_all all_models_complete [of m] unfolding list_all_iff by blast

lemma second_create_fails:
  assumes u: "name_unique m"
      and c1: "create e m kw st = Inr st1"
      and n1: "map_of kw ''name'' = Some n"
      and n2: "map_of kw' ''name'' = Some n"
  shows "\<exists>v. create e' m kw' st1 = Inl (ValidationError v)"
proof -
  from u obtain c where c: "column_named m ''name'' = Some c" and cu: "col_unique c"
    by (auto simp: name_unique_def split: option.splits)
  from c have cin: "c \<in> set (columns m)" and cn: "col_name c = ''name''"
    by (auto dest: column_named_SomeD)
  have r1: "map_of (new_row e m kw) ''name'' = Some n"
    using c n1 cn by (simp add: map_of_new_row given_value)
  have r2: "map_of (new_row e' m kw') ''name'' = Some n"
    using c n2 cn by (simp add: map_of_new_row given_value)
  have st1: "st1 = st\<lparr>objects := objects st @ [(m, new_row e m kw)]\<rparr>"
    using c1 by (rule create_InrD(2))
  have "taken st1 m ''name'' n"
    unfolding st1 using r1 by (rule taken_append)
  with cu r2 cn have "column_violations st1 m (new_row e' m kw') c \<noteq> []"
    by (simp add: column_violations_def)
  with cin have "violations st1 m (new_row e' m kw') \<noteq> []"
    by (auto simp: violations_def)
  then show ?thesis by (simp add: create_Inl_iff)
qed

text \<open>
  C1, as stated, fails for \<open>CallModel\<close>, which declares \<open>name\<close> again with
  \<open>unique=False\<close>: two calls of the same name, with different identifiers, are both
  created.
\<close>

theorem calls_share_a_name:
  "map_of call_a ''name'' = Some (VStr ''add'') \<and> map_of call_b ''name'' = Some (VStr ''add'') \<and>
   create env0 CallModel call_a empty_store = Inr calls1 \<and>
   create env0 CallModel call_b calls1 = Inr calls2"
  by code_simp

text \<open>
  C1, amended. The \<open>name\<close> column is declared unique by every class except
  \<open>VersionModel\<close>, \<open>DeploymentModel\<close>, \<open>CallModel\<close>, \<open>ArgumentModel\<close> and \<open>EventModel\<close>,
  which declare a \<open>name\<close> that is not unique, and \<open>LogModel\<close>, \<open>JobModel\<close> and
  \<open>LoginModel\<close>, which have no \<open>name\<close>; it is required by every class that has one. For
  a class whose \<open>name\<close> is unique, after a record has been created a second record of
  the same class with the same name is refused with a validation error.
\<close>

theorem unique_name_one_success_one_error:
  "(name_unique m \<longleftrightarrow>
      m \<notin> {VersionModel, DeploymentModel, CallModel, ArgumentModel, EventModel,
            LogModel, JobModel, LoginModel}) \<and>
   (name_required m \<longleftrightarrow> m \<notin> {LogModel, JobModel, LoginModel}) \<and>
   (name_unique m \<longrightarrow> create e m kw st = Inr st1 \<longrightarrow>
    map_of kw ''name'' = Some n \<longrightarrow> map_of kw' ''name'' = Some n \<longrightarrow>
    (\<exists>v. create e' m kw' st1 = Inl (ValidationError v)))"
  using name_unique_iff [of m] name_required_iff [of m]
        second_create_fails [of m e kw st st1 n kw' e']
  by blast

theorem unique_name_one_success_one_error_witness:
  "name_unique RoleModel \<and> create env0 RoleModel role_a empty_store = Inr roles1 \<and>
   (\<exists>v. create env0 RoleModel role_b roles1 = Inl (ValidationError v))"
proof -
  have u: "name_unique RoleModel" by code_simp
  have c: "create env0 RoleModel role_a empty_store = Inr roles1" by code_simp
  have a: "map_of role_a ''name'' = Some (VStr ''editor'')" by code_simp
  have b: "map_of role_b ''name'' = Some (VStr ''editor'')" by code_simp
  from unique_name_one_success_one_error
         [of RoleModel env0 role_a empty_store roles1 "VStr ''editor''" role_b env0] u c a b
  show ?thesis by blast
qed

subsection \<open>A call at creation\<close>

lemma CallModel_state: "column_named CallModel ''state'' = Some (Column ''state'' (String 10))"
  by code_simp

lemma CallModel_started:
  "column_named CallModel ''started'' =
     Some ((Column ''started'' DateTime)\<lparr>col_default := Some DatetimeNow, col_nullable := Some False\<rparr>)"
  by code_simp

lemma CallModel_finished: "column_named CallModel ''finished'' = Some (Column ''finished'' DateTime)"
  by code_simp

lemma call_created_fields:
  assumes "create e CallModel kw st = Inr st'"
  shows "map_of (snd (last (objects st'))) ''state'' = map_of kw ''state'' \<and>
         map_of (snd (last (objects st'))) ''started'' =
           Some (case map_of kw ''started'' of Some v \<Rightarrow> v | None \<Rightarrow> VTime (env_now e)) \<and>
         map_of (snd (last (objects st'))) ''finished'' = map_of kw ''finished''"
  using created_value [OF assms CallModel_state] created_value [OF assms CallModel_started]
        created_value [OF assms CallModel_finished]
  by (simp add: insert_value_def Column_def split: option.splits)

lemma call_update_fields:
  "map_of (updated_row e CallModel r ch) ''state'' =
     (case map_of ch ''state'' of Some v \<Rightarrow> Some v | None \<Rightarrow> map_of r ''state'') \<and>
   map_of (updated_row e CallModel r ch) ''finished'' =
     (case map_of ch ''finished'' of Some v \<Rightarrow> Some v | None \<Rightarrow> map_of r ''finished'')"
  using map_of_updated_row_plain [OF CallModel_state, of e r ch]
        map_of_updated_row_plain [OF CallModel_finished, of e r ch]
  by (simp add: Column_def)

text \<open>
  C6, as stated, fails. \<open>state\<close> has no default, so a call created without a state has
  none, not \<open>CREATED\<close>. And no transition is ruled out: a call created in state \<open>CREATED\<close>
  is updated to \<open>SUCCESS\<close> without passing through \<open>RUNNING\<close>, and stays without a
  \<open>finished\<close> time in that terminal state.
\<close>

theorem call_state_unconstrained:
  "create env0 CallModel call_a empty_store = Inr calls1 \<and>
   map_of (snd (last (objects calls1))) ''state'' = None \<and>
   create env0 CallModel (call_a @ [(''state'', VStr ''CREATED'')]) empty_store = Inr calls_created \<and>
   update env1 (call_in_state ''CREATED'' 7) [(''state'', VStr ''SUCCESS'')] calls_created =
     Inr calls_success \<and>
   map_of (snd (call_in_state ''SUCCESS'' 9)) ''finished'' = None"
  by code_simp

text \<open>
  C6, amended. A call is created with the \<open>state\<close> its creator gives it, and with none
  when none is given; \<open>started\<close> is set at creation, to the time of creation unless the
  creator gives another; \<open>finished\<close> is unset at creation unless the creator gives it.
  An update sets \<open>state\<close> to the value it gives, whatever the state was before, and
  leaves \<open>finished\<close> as it was unless it gives a value for it.
\<close>

theorem call_state_follows_its_writer:
  "(create e CallModel kw st = Inr st' \<longrightarrow>
      map_of (snd (last (objects st'))) ''state'' = map_of kw ''state'' \<and>
      map_of (snd (last (objects st'))) ''started'' =
        Some (case map_of kw ''started'' of Some v \<Rightarrow> v | None \<Rightarrow> VTime (env_now e)) \<and>
      map_of (snd (last (objects st'))) ''finished'' = map_of kw ''finished'') \<and>
   (update e (CallModel, r) ch st = Inr st' \<longrightarrow>
      (CallModel, updated_row e CallModel r ch) \<in> set (objects st') \<and>
      map_of (updated_row e CallModel r ch) ''state'' =
        (case map_of ch ''state'' of Some v \<Rightarrow> Some v | None \<Rightarrow> map_of r ''state'') \<and>
      map_of (updated_row e CallModel r ch) ''finished'' =
        (case map_of ch ''finished'' of Some v \<Rightarrow> Some v | None \<Rightarrow> map_of r ''finished''))"
  using call_created_fields [of e kw st st'] updated_in_store [of e "(CallModel, r)" ch st st']
        call_update_fields [of e r ch]
  by simp

theorem call_state_follows_its_writer_witness:
  "create env0 CallModel call_a empty_store = Inr calls1 \<and>
   map_of (snd (last (objects calls1))) ''state'' = None \<and>
   map_of (snd (last (objects calls1))) ''started'' = Some (VTime 7) \<and>
   map_of (snd (last (objects calls1))) ''finished'' = None \<and>
   update env1 (CallModel, snd (call_in_state ''CREATED'' 7)) [(''state'', VStr ''SUCCESS'')]
     calls_created = Inr calls_success \<and>
   map_of (updated_row env1 CallModel (snd (call_in_state ''CREATED'' 7)) [(''state'', VStr ''SUCCESS'')])
     ''state'' = Some (VStr ''SUCCESS'') \<and>
   map_of (updated_row env1 CallModel (snd (call_in_state ''CREATED'' 7)) [(''state'', VStr ''SUCCESS'')])
     ''finished'' = None"
proof -
  have c: "create env0 CallModel call_a empty_store = Inr calls1" by code_simp
  have u: "update env1 (CallModel, snd (call_in_state ''CREATED'' 7)) [(''state'', VStr ''SUCCESS'')]
             calls_created = Inr calls_success" by code_simp
  have k: "map_of call_a ''state'' = None" "map_of call_a ''started'' = None"
          "map_of call_a ''finished'' = None" "env_now env0 = 7"
          "map_of (snd (call_in_state ''CREATED'' 7)) ''finished'' = None"
    by code_simp+
  from call_state_follows_its_writer
         [where e = env0 and kw = call_a and st = empty_store and st' = calls1]
       call_state_follows_its_writer
         [where e = env1 and st = calls_created and st' = calls_success
            and r = "snd (call_in_state ''CREATED'' 7)" and ch = "[(''state'', VStr ''SUCCESS'')]"]
       c u k
  show ?thesis by simp
qed

subsection \<open>The credentials of a user\<close>

lemma UserModel_clear:
  "column_named UserModel ''clear'' =
     Some ((Column ''clear'' (String 60))\<lparr>col_unique := False, col_nullable := Some False\<rparr>)"
  by code_simp

text \<open>
  C9, as stated, fails: \<open>UserModel\<close> declares the column \<open>clear\<close> beside \<open>password\<close>, and
  a user is stored with the value given for it.
\<close>

theorem user_has_clear_column:
  "column_named UserModel ''clear'' =
     Some ((Column ''clear'' (String 60))\<lparr>col_unique := False, col_nullable := Some False\<rparr>) \<and>
   create env0 UserModel user_a empty_store = Inr users1 \<and>
   map_of (snd (last (objects users1))) ''clear'' = Some (VStr ''secret'')"
  by code_simp

text \<open>
  C9, amended. The User entity has a required column \<open>clear\<close> beside \<open>password\<close>: a
  user is created only when a value for \<open>clear\<close> is given, and that value is stored as
  given.
\<close>

theorem user_clear_required_and_stored:
  assumes "create e UserModel kw st = Inr st'"
  shows "\<exists>v. map_of kw ''clear'' = Some v \<and> map_of (snd (last (objects st'))) ''clear'' = Some v"
proof -
  let ?c = "(Column ''clear'' (String 60))\<lparr>col_unique := False, col_nullable := Some False\<rparr>"
  let ?r = "new_row e UserModel kw"
  have cin: "?c \<in> set (columns UserModel)" and cn: "col_name ?c = ''clear''"
    using column_named_SomeD [OF UserModel_clear] by simp_all
  have v: "map_of ?r ''clear'' = insert_value e kw ?c"
    by (simp add: map_of_new_row UserModel_clear)
  have "column_violations st UserModel ?r ?c = []"
    using create_InrD(1) [OF assms] cin by (rule violations_column)
  then have "map_of ?r ''clear'' \<noteq> None"
    by (auto simp: column_violations_def is_nullable_def Column_def split: option.splits)
  with v obtain x where x: "insert_value e kw ?c = Some x" by auto
  then have "map_of kw ''clear'' = Some x"
    by (auto simp: insert_value_def Column_def split: option.splits)
  moreover have "map_of (snd (last (objects st'))) ''clear'' = Some x"
    using created_value [OF assms UserModel_clear] x by simp
  ultimately show ?thesis by blast
qed

theorem user_clear_required_and_stored_witness:
  "create env0 UserModel user_a empty_store = Inr users1 \<and>
   (\<exists>v. map_of user_a ''clear'' = Some v \<and> map_of (snd (last (objects users1))) ''clear'' = Some v)"
proof -
  have c: "create env0 UserModel user_a empty_store = Inr users1" by code_simp
  from user_clear_required_and_stored [OF c] c show ?thesis by simp
qed

subsection \<open>The default of \<open>wait\<close>\<close>

lemma SocketModel_wait:
  "column_named SocketModel ''wait'' =
     Some ((Column ''wait'' Boolean)\<lparr>col_default := Some (Const (VBool False))\<rparr>)"
  by code_simp

text \<open>
  C10. A socket created without a value for \<open>wait\<close> has \<open>wait\<close> false, and so its task
  fires on every delivery, whichever source plugs have delivered.
\<close>

theorem socket_wait_defaults_to_false:
  assumes "create e SocketModel kw st = Inr st'" and "map_of kw ''wait'' = None"
  shows "map_of (snd (last (objects st'))) ''wait'' = Some (VBool False) \<and>
         fires_on_delivery (last (objects st')) sources delivered"
  using created_value [OF assms(1) SocketModel_wait] assms(2)
  by (simp add: insert_value_def Column_def fires_on_delivery_def)

theorem socket_wait_defaults_to_false_witness:
  "create env0 SocketModel socket_a empty_store = Inr sockets1 \<and>
   map_of socket_a ''wait'' = None \<and>
   map_of (snd (last (objects sockets1))) ''wait'' = Some (VBool False) \<and>
   fires_on_delivery (last (objects sockets1)) [''g1'', ''g2'', ''g3''] [''g2'']"
proof -
  have c: "create env0 SocketModel socket_a empty_store = Inr sockets1" by code_simp
  have k: "map_of socket_a ''wait'' = None" by code_simp
  from socket_wait_defaults_to_false [OF c k, of "[''g1'', ''g2'', ''g3'']" "[''g2'']"] c k
  show ?thesis by simp
qed

subsection \<open>Revocation\<close>

lemma revoked_facts:
  "find (\<lambda>rel. rel_name rel = ''revoked'') (relationships UserModel) = Some UserModel_revoked"
  "direction UserModel UserModel_revoked =
     Some (MANYTOMANY ''user_privileges_revoked'' ''user_id'' ''privilege_id'')"
  "rel_argument UserModel_revoked = PrivilegeModel"
  by code_simp+

lemma members_revoked:
  assumes "fst a = UserModel"
  shows "set (members st a ''revoked'') =
           {y \<in> set (objects st). fst y = PrivilegeModel \<and> revokes st a y}"
  using assms
  by (auto simp: members_def related_def joined_def revoked_facts revokes_def tied_def)

lemma right_of_iff: "p \<in> set (right_of y) \<longleftrightarrow> map_of (snd y) ''right'' = Some (VStr p)"
  by (cases y) (auto split: option.splits val.splits)

lemma revoked_set_iff:
  assumes "fst a = UserModel"
  shows "p \<in> set (revoked_set st a) \<longleftrightarrow>
           (\<exists>y \<in> set (objects st). fst y = PrivilegeModel \<and> revokes st a y \<and>
                                   map_of (snd y) ''right'' = Some (VStr p))"
proof -
  have "p \<in> set (revoked_set st a) \<longleftrightarrow>
          (\<exists>y \<in> set (members st a ''revoked''). p \<in> set (right_of y))"
    by (auto simp: revoked_set_def rights_of_def)
  also have "\<dots> \<longleftrightarrow>
          (\<exists>y \<in> {y \<in> set (objects st). fst y = PrivilegeModel \<and> revokes st a y}.
              map_of (snd y) ''right'' = Some (VStr p))"
    by (simp only: members_revoked [OF assms] right_of_iff)
  also have "\<dots> \<longleftrightarrow>
          (\<exists>y \<in> set (objects st). fst y = PrivilegeModel \<and> revokes st a y \<and>
                                  map_of (snd y) ''right'' = Some (VStr p))"
    by blast
  finally show ?thesis .
qed

text \<open>
  C3. Whenever a privilege is tied to an actor in \<open>user_privileges_revoked\<close>, the action
  it carries is denied to that actor, whether or not the actor was granted it directly or
  through a role, and whether or not the actor holds \<open>ALL\<close>; and the effective grant set
  is the union of the direct privileges and the privileges of all held roles, minus the
  revoked set.
\<close>

theorem revocation_always_wins:
  "(fst a = UserModel \<longrightarrow> y \<in> set (objects st) \<longrightarrow> fst y = PrivilegeModel \<longrightarrow> revokes st a y \<longrightarrow>
    map_of (snd y) ''right'' = Some (VStr p) \<longrightarrow> authorize st a p res = Deny) \<and>
   (p \<in> set (revoked_set st a) \<longrightarrow> authorize st a p res = Deny) \<and>
   set (resulting_set st a) =
     (set (rights_of (members st a ''privileges'')) \<union>
      (\<Union>role \<in> set (members st a ''roles''). set (rights_of (members st role ''privileges'')))) -
     set (revoked_set st a)"
proof (intro conjI impI)
  assume "fst a = UserModel" "y \<in> set (objects st)" "fst y = PrivilegeModel" "revokes st a y"
         "map_of (snd y) ''right'' = Some (VStr p)"
  then have "p \<in> set (revoked_set st a)"
    by (auto simp: revoked_set_iff)
  then show "authorize st a p res = Deny"
    by (simp add: authorize_def)
next
  assume "p \<in> set (revoked_set st a)"
  then show "authorize st a p res = Deny"
    by (simp add: authorize_def)
next
  show "set (resulting_set st a) =
     (set (rights_of (members st a ''privileges'')) \<union>
      (\<Union>role \<in> set (members st a ''roles''). set (rights_of (members st role ''privileges'')))) -
     set (revoked_set st a)"
    by (auto simp: grant_set_def resulting_set_def)
qed

theorem revocation_always_wins_witness:
  "privilege_update \<in> set (objects acl_all) \<and> revokes acl_all alice privilege_update \<and>
   ''UPDATE'' \<in> set (grant_set acl_all alice) \<and> ''ALL'' \<in> set (resulting_set acl_all alice) \<and>
   authorize acl_all alice ''UPDATE'' () = Deny \<and>
   authorize acl_all alice ''READ'' () = Allow \<and>
   authorize acl_editor alice ''UPDATE'' () = Deny \<and>
   authorize acl_editor alice ''READ'' () = Allow"
proof -
  have a: "fst alice = UserModel" by code_simp
  have y: "privilege_update \<in> set (objects acl_all)" by code_simp
  have f: "fst privilege_update = PrivilegeModel" by code_simp
  have r: "revokes acl_all alice privilege_update" by code_simp
  have v: "map_of (snd privilege_update) ''right'' = Some (VStr ''UPDATE'')" by code_simp
  have g: "''UPDATE'' \<in> set (grant_set acl_all alice)" by code_simp
  have l: "''ALL'' \<in> set (resulting_set acl_all alice)" by code_simp
  have k: "authorize acl_all alice ''READ'' () = Allow"
          "authorize acl_editor alice ''READ'' () = Allow" by code_simp+
  have e: "''UPDATE'' \<in> set (revoked_set acl_editor alice)" by code_simp
  from revocation_always_wins
         [where a = alice and y = privilege_update and st = acl_all and p = "''UPDATE''"
            and res = "()"]
       revocation_always_wins [where a = alice and st = acl_editor and p = "''UPDATE''" and res = "()"]
       a y f r v g l k e
  show ?thesis by blast
qed

subsection \<open>Logs and logins\<close>

lemma direction_logs: "direction m (HasLogs_logs cls) = Some (ONETOMANY ''oid'')"
  by (simp add: direction_def HasLogs_logs_def relationship_def)

lemma direction_logins: "direction m (HasLogins_logins cls) = Some (ONETOMANY ''user_id'')"
  by (simp add: direction_def HasLogins_logins_def relationship_def)

lemma joined_logs:
  "joined st x (HasLogs_logs cls) t \<longleftrightarrow>
     map_of (snd x) ''id'' \<noteq> None \<and> map_of t ''oid'' = map_of (snd x) ''id'' \<and>
     map_of t ''discriminator'' = Some (VStr (class_name cls))"
  unfolding joined_def direction_logs
  by (simp add: literals_hold_def HasLogs_logs_def relationship_def)

lemma joined_logins:
  "joined st x (HasLogins_logins cls) t \<longleftrightarrow>
     map_of (snd x) ''id'' \<noteq> None \<and> map_of t ''user_id'' = map_of (snd x) ''id''"
  unfolding joined_def direction_logins
  by (simp add: literals_hold_def HasLogins_logins_def relationship_def)

lemma set_load_ordered:
  "rel_order_by rel = Some a \<Longrightarrow> set (load scan st x rel) = set (related st x rel)"
  by (cases a) (simp add: load_def)

lemma order_logs: "rel_order_by (HasLogs_logs cls) = Some (Desc ''created'')"
  by (simp add: HasLogs_logs_def relationship_def)

lemma order_logins: "rel_order_by (HasLogins_logins cls) = Some (Desc ''created'')"
  by (simp add: HasLogins_logins_def relationship_def)

lemma argument_logs: "rel_argument (HasLogs_logs cls) = LogModel"
  by (simp add: HasLogs_logs_def relationship_def)

lemma argument_logins: "rel_argument (HasLogins_logins cls) = LoginModel"
  by (simp add: HasLogins_logins_def relationship_def)

text \<open>
  C8, as stated, fails for Login: \<open>LoginModel\<close> has the foreign key \<open>user_id\<close> to
  \<open>users.id\<close> and no type tag, and the lookup of logins compares \<open>user_id\<close> only. A
  processor that carries the identifier of a user is given the logins of that user,
  while its logs are those tagged \<open>ProcessorModel\<close> alone.
\<close>

theorem login_lookup_has_no_type_tag:
  "map_option col_fk (column_named LoginModel ''user_id'') = Some (ForeignKey ''users.id'') \<and>
   column_named LoginModel ''discriminator'' = None \<and>
   load table_order audit user_x (HasLogins_logins UserModel) = [login_x] \<and>
   load table_order audit processor_x (HasLogins_logins ProcessorModel) = [login_x] \<and>
   load table_order audit processor_x (HasLogs_logs ProcessorModel) = [log_processor]"
  by code_simp

text \<open>
  C8, amended. Log attaches to an owner of any class through the pair of \<open>oid\<close> and
  \<open>discriminator\<close>, and the logs of an owner are the log rows that match both its
  identifier and the name of its class. Login attaches to a User through the foreign key
  \<open>user_id\<close> to \<open>users.id\<close>, and the logins of an owner are the login rows whose
  \<open>user_id\<close> is its identifier.
\<close>

theorem logs_by_id_and_type_logins_by_user:
  "set (load scan st x (HasLogs_logs cls)) =
     {y \<in> set (objects st). fst y = LogModel \<and> map_of (snd x) ''id'' \<noteq> None \<and>
        map_of (snd y) ''oid'' = map_of (snd x) ''id'' \<and>
        map_of (snd y) ''discriminator'' = Some (VStr (class_name cls))} \<and>
   set (load scan st x (HasLogins_logins cls)) =
     {y \<in> set (objects st). fst y = LoginModel \<and> map_of (snd x) ''id'' \<noteq> None \<and>
        map_of (snd y) ''user_id'' = map_of (snd x) ''id''} \<and>
   map_option col_fk (column_named LoginModel ''user_id'') = Some (ForeignKey ''users.id'')"
proof (intro conjI)
  show "set (load scan st x (HasLogs_logs cls)) =
     {y \<in> set (objects st). fst y = LogModel \<and> map_of (snd x) ''id'' \<noteq> None \<and>
        map_of (snd y) ''oid'' = map_of (snd x) ''id'' \<and>
        map_of (snd y) ''discriminator'' = Some (VStr (class_name cls))}"
    unfolding set_load_ordered [OF order_logs] related_def by (auto simp: joined_logs argument_logs)
  show "set (load scan st x (HasLogins_logins cls)) =
     {y \<in> set (objects st). fst y = LoginModel \<and> map_of (snd x) ''id'' \<noteq> None \<and>
        map_of (snd y) ''user_id'' = map_of (snd x) ''id''}"
    unfolding set_load_ordered [OF order_logins] related_def by (auto simp: joined_logins argument_logins)
  show "map_option col_fk (column_named LoginModel ''user_id'') = Some (ForeignKey ''users.id'')"
    by code_simp
qed

theorem logs_by_id_and_type_logins_by_user_witness:
  "set (load table_order audit processor_x (HasLogs_logs ProcessorModel)) = {log_processor} \<and>
   set (load table_order audit user_x (HasLogins_logins UserModel)) = {login_x}"
proof -
  have o: "objects audit = [user_x, processor_x, login_x, log_processor, log_user]"
    by (simp add: audit_def)
  have f: "fst user_x = UserModel" "fst processor_x = ProcessorModel" "fst login_x = LoginModel"
          "fst log_processor = LogModel" "fst log_user = LogModel"
    by (simp_all add: user_x_def processor_x_def login_x_def log_processor_def log_user_def)
  have v: "map_of (snd processor_x) ''id'' = Some (VStr ''x1'')"
          "map_of (snd user_x) ''id'' = Some (VStr ''x1'')"
          "map_of (snd log_processor) ''oid'' = Some (VStr ''x1'')"
          "map_of (snd log_user) ''oid'' = Some (VStr ''x1'')"
          "map_of (snd login_x) ''user_id'' = Some (VStr ''x1'')"
          "map_of (snd log_processor) ''discriminator'' = Some (VStr ''ProcessorModel'')"
          "map_of (snd log_user) ''discriminator'' = Some (VStr ''UserModel'')"
    by (simp_all add: user_x_def processor_x_def login_x_def log_processor_def log_user_def)
  from logs_by_id_and_type_logins_by_user
         [where scan = table_order and st = audit and x = processor_x and cls = ProcessorModel]
       logs_by_id_and_type_logins_by_user
         [where scan = table_order and st = audit and x = user_x and cls = UserModel]
  show ?thesis
    by (auto simp: o f v)
qed

subsection \<open>The events of a call\<close>

lemma find_events:
  "find (\<lambda>rel. rel_name rel = ''events'') (relationships CallModel) = Some CallModel_events"
  by code_simp

lemma direction_events:
  "direction CallModel CallModel_events = Some (MANYTOMANY ''calls_events'' ''call_id'' ''event_id'')"
  by code_simp

lemma events_facts:
  "rel_order_by CallModel_events = None" "rel_argument CallModel_events = EventModel"
  by (simp_all add: CallModel_events_def relationship_def)

lemma attribute_events:
  "fst c = CallModel \<Longrightarrow> attribute scan st c ''events'' = scan (related st c CallModel_events)"
  by (simp add: attribute_def find_events load_def events_facts)

lemma related_events:
  "fst c = CallModel \<Longrightarrow>
   related st c CallModel_events =
     filter (\<lambda>y. fst y = EventModel \<and> in_calls_events st c y) (objects st)"
  by (simp add: related_def joined_def direction_events events_facts in_calls_events_def tied_def)

lemma EventModel_id: "column_named EventModel ''id'' = Some id_column"
  by code_simp

lemma created_id:
  assumes "create e EventModel kw st = Inr st1"
  shows "\<exists>j. map_of (snd (last (objects st1))) ''id'' = Some j \<and> \<not> taken st EventModel ''id'' j"
proof -
  let ?r = "new_row e EventModel kw"
  have cin: "id_column \<in> set (columns EventModel)" and cn: "col_name id_column = ''id''"
    using column_named_SomeD [OF EventModel_id] by simp_all
  have v: "map_of ?r ''id'' = insert_value e kw id_column"
    by (simp add: map_of_new_row EventModel_id)
  obtain j where j: "insert_value e kw id_column = Some j"
    by (cases "map_of kw ''id''") (auto simp: insert_value_def id_column_def Column_def)
  have "column_violations st EventModel ?r id_column = []"
    using create_InrD(1) [OF assms] cin by (rule violations_column)
  with v j cn have "\<not> taken st EventModel ''id'' j"
    by (auto simp: column_violations_def id_column_def Column_def split: if_splits)
  moreover have "map_of (snd (last (objects st1))) ''id'' = Some j"
    using created_value [OF assms EventModel_id] j by simp
  ultimately show ?thesis by blast
qed

lemma EventModel_created:
  "column_named EventModel ''created'' =
     Some ((Column ''created'' DateTime)\<lparr>col_default := Some DatetimeNow, col_nullable := Some False\<rparr>)"
  by code_simp

lemma EventModel_note:
  "column_named EventModel ''note'' = Some ((Column ''note'' (String 80))\<lparr>col_nullable := Some False\<rparr>)"
  by code_simp

lemma EventModel_lastupdated:
  "column_named EventModel ''lastupdated'' =
     Some ((Column ''lastupdated'' DateTime)
             \<lparr>col_default := Some DatetimeNow, col_onupdate := Some DatetimeNow,
              col_nullable := Some False\<rparr>)"
  by code_simp

lemma event_created_stamp:
  assumes "create e EventModel kw st = Inr st1"
  shows "map_of (snd (last (objects st1))) ''created'' =
           Some (case map_of kw ''created'' of Some v \<Rightarrow> v | None \<Rightarrow> VTime (env_now e))"
  using created_value [OF assms EventModel_created]
  by (simp add: insert_value_def Column_def split: option.splits)

lemma event_update_note:
  "map_of (updated_row e EventModel r ch) ''note'' =
     (case map_of ch ''note'' of Some v \<Rightarrow> Some v | None \<Rightarrow> map_of r ''note'')"
  using map_of_updated_row_plain [OF EventModel_note, of e r ch] by (simp add: Column_def)

lemma event_update_stamp:
  assumes "changed EventModel r ch"
  shows "map_of (updated_row e EventModel r ch) ''lastupdated'' =
           Some (case map_of ch ''lastupdated'' of Some v \<Rightarrow> v | None \<Rightarrow> VTime (env_now e))"
  using map_of_updated_row_changed [OF assms, of e "''lastupdated''"]
  by (simp add: EventModel_lastupdated update_value_def Column_def split: option.splits)

lemma related_append:
  assumes cr: "create e EventModel kw st = Inr st1"
      and c: "fst c = CallModel" and i: "map_of (snd c) ''id'' = Some i"
  shows "related (attribute_append st1 c ''events'' (last (objects st1))) c CallModel_events =
           related st c CallModel_events @ [last (objects st1)]"
proof -
  let ?ev = "last (objects st1)"
  from created_id [OF cr] obtain j where
    j: "map_of (snd ?ev) ''id'' = Some j" and free: "\<not> taken st EventModel ''id'' j"
    by blast
  have ev: "?ev = (EventModel, new_row e EventModel kw)"
    using cr by (rule created_last)
  have st1: "st1 = st\<lparr>objects := objects st @ [?ev]\<rparr>"
    using create_InrD(2) [OF cr] ev by simp
  let ?st2 = "attribute_append st1 c ''events'' ?ev"
  have st2: "?st2 = st1\<lparr>links := links st1 @ [(''calls_events'', [(''call_id'', i), (''event_id'', j)])]\<rparr>"
    using c i j by (simp add: attribute_append_def find_events append_link_def direction_events)
  have o2: "objects ?st2 = objects st @ [?ev]"
    unfolding st2 by (subst st1) simp
  have l2: "links ?st2 = links st @ [(''calls_events'', [(''call_id'', i), (''event_id'', j)])]"
    unfolding st2 by (subst st1) simp
  have jn: "in_calls_events ?st2 c y \<longleftrightarrow> in_calls_events st c y \<or> map_of (snd y) ''id'' = Some j" for y
    unfolding in_calls_events_def tied_def l2 using i by auto
  have old: "fst y = EventModel \<and> in_calls_events ?st2 c y \<longleftrightarrow>
             fst y = EventModel \<and> in_calls_events st c y"
    if "y \<in> set (objects st)" for y
  proof -
    from free that have "\<not> (fst y = EventModel \<and> map_of (snd y) ''id'' = Some j)"
      by (auto simp: taken_def list_ex_iff)
    then show ?thesis by (auto simp: jn)
  qed
  have "fst ?ev = EventModel"
    using ev by simp
  moreover have "in_calls_events ?st2 c ?ev"
    unfolding jn using j by blast
  ultimately have new: "fst ?ev = EventModel \<and> in_calls_events ?st2 c ?ev" ..
  have "related ?st2 c CallModel_events =
          filter (\<lambda>y. fst y = EventModel \<and> in_calls_events ?st2 c y) (objects st @ [?ev])"
    unfolding related_events [OF c] o2 ..
  also have "\<dots> = filter (\<lambda>y. fst y = EventModel \<and> in_calls_events ?st2 c y) (objects st) @ [?ev]"
    using new by simp
  also have "filter (\<lambda>y. fst y = EventModel \<and> in_calls_events ?st2 c y) (objects st) =
             filter (\<lambda>y. fst y = EventModel \<and> in_calls_events st c y) (objects st)"
    by (rule filter_cong) (auto simp: old)
  finally show "related ?st2 c CallModel_events = related st c CallModel_events @ [?ev]"
    unfolding related_events [OF c] .
qed

text \<open>
  C7, as stated, fails. An event can be changed after its creation: an update of its
  note is accepted and stored. And \<open>CallModel.events\<close> has no \<open>order_by\<close>, so nothing
  sorts the events of a call: with a database that returns rows in the order the table
  holds them, they come back the oldest first.
\<close>

theorem events_unordered_and_mutable:
  "update env1 event_c_stored [(''note'', VStr ''changed'')] ledger1 = Inr ledger2 \<and>
   map_of (snd event_c_stored) ''note'' = Some (VStr ''prerun'') \<and>
   map_of (snd (last (objects ledger2))) ''note'' = Some (VStr ''changed'') \<and>
   attribute table_order ledger call_c1 ''events'' = [event_old, event_new] \<and>
   time_of ''created'' event_old = 1 \<and> time_of ''created'' event_new = 2"
  by code_simp

text \<open>
  C7, amended. The events of a call are the Event rows tied to it in \<open>calls_events\<close>,
  returned in the order the database chooses, with no sorting by creation time; every
  event carries its time of creation. Creating an event and appending it to the events
  of a call adds that event to them and leaves the others as they were. An update that
  changes the note of an event is accepted as for any other record: it stores the new
  note and stamps \<open>lastupdated\<close>.
\<close>

theorem events_of_a_call:
  "(fst c = CallModel \<longrightarrow>
      attribute scan st c ''events'' = scan (attribute table_order st c ''events'') \<and>
      set (attribute table_order st c ''events'') =
        {y \<in> set (objects st). fst y = EventModel \<and> in_calls_events st c y}) \<and>
   (create e EventModel kw st = Inr st1 \<longrightarrow> fst c = CallModel \<longrightarrow> map_of (snd c) ''id'' = Some i \<longrightarrow>
      map_of (snd (last (objects st1))) ''created'' =
        Some (case map_of kw ''created'' of Some v \<Rightarrow> v | None \<Rightarrow> VTime (env_now e)) \<and>
      set (attribute table_order (attribute_append st1 c ''events'' (last (objects st1))) c ''events'') =
        insert (last (objects st1)) (set (attribute table_order st c ''events''))) \<and>
   (update e (EventModel, r) ch st = Inr st2 \<longrightarrow>
    map_of ch ''note'' = Some v \<longrightarrow> map_of r ''note'' \<noteq> Some v \<longrightarrow>
      (EventModel, updated_row e EventModel r ch) \<in> set (objects st2) \<and>
      map_of (updated_row e EventModel r ch) ''note'' = Some v \<and>
      map_of (updated_row e EventModel r ch) ''lastupdated'' =
        Some (case map_of ch ''lastupdated'' of Some w \<Rightarrow> w | None \<Rightarrow> VTime (env_now e)))"
proof (intro conjI impI)
  assume c: "fst c = CallModel"
  show "attribute scan st c ''events'' = scan (attribute table_order st c ''events'')"
    by (simp add: attribute_events [OF c] table_order_def)
  show "set (attribute table_order st c ''events'') =
        {y \<in> set (objects st). fst y = EventModel \<and> in_calls_events st c y}"
    by (simp add: attribute_events [OF c] related_events [OF c] table_order_def)
next
  assume "create e EventModel kw st = Inr st1"
  then show "map_of (snd (last (objects st1))) ''created'' =
        Some (case map_of kw ''created'' of Some v \<Rightarrow> v | None \<Rightarrow> VTime (env_now e))"
    by (rule event_created_stamp)
next
  assume cr: "create e EventModel kw st = Inr st1" and c: "fst c = CallModel"
     and i: "map_of (snd c) ''id'' = Some i"
  show "set (attribute table_order (attribute_append st1 c ''events'' (last (objects st1))) c ''events'') =
        insert (last (objects st1)) (set (attribute table_order st c ''events''))"
    by (simp add: attribute_events [OF c] related_append [OF cr c i] table_order_def)
next
  assume "update e (EventModel, r) ch st = Inr st2"
  then show "(EventModel, updated_row e EventModel r ch) \<in> set (objects st2)"
    using updated_in_store [of e "(EventModel, r)" ch st st2] by simp
next
  assume "map_of ch ''note'' = Some v"
  then show "map_of (updated_row e EventModel r ch) ''note'' = Some v"
    by (simp add: event_update_note)
next
  assume "map_of ch ''note'' = Some v" "map_of r ''note'' \<noteq> Some v"
  with EventModel_note have "changed EventModel r ch"
    by (rule changedI)
  then show "map_of (updated_row e EventModel r ch) ''lastupdated'' =
        Some (case map_of ch ''lastupdated'' of Some w \<Rightarrow> w | None \<Rightarrow> VTime (env_now e))"
    by (rule event_update_stamp)
qed

theorem events_of_a_call_witness:
  "create env0 EventModel event_c ledger = Inr ledger1 \<and>
   map_of (snd event_c_stored) ''created'' = Some (VTime 7) \<and>
   set (attribute table_order (attribute_append ledger1 call_c1 ''events'' event_c_stored)
          call_c1 ''events'') = {event_old, event_new, event_c_stored} \<and>
   update env1 (EventModel, snd event_c_stored) [(''note'', VStr ''changed'')] ledger1 = Inr ledger2 \<and>
   map_of (updated_row env1 EventModel (snd event_c_stored) [(''note'', VStr ''changed'')]) ''note'' =
     Some (VStr ''changed'') \<and>
   map_of (updated_row env1 EventModel (snd event_c_stored) [(''note'', VStr ''changed'')])
     ''lastupdated'' = Some (VTime 9)"
proof -
  have c: "create env0 EventModel event_c ledger = Inr ledger1" by code_simp
  have u: "update env1 (EventModel, snd event_c_stored) [(''note'', VStr ''changed'')] ledger1 =
             Inr ledger2" by code_simp
  have f: "fst call_c1 = CallModel" by code_simp
  have i: "map_of (snd call_c1) ''id'' = Some (VStr ''c1'')" by code_simp
  have a: "attribute table_order ledger call_c1 ''events'' = [event_old, event_new]" by code_simp
  have l: "last (objects ledger1) = event_c_stored" by (simp add: ledger1_def)
  have k: "map_of event_c ''created'' = None" "env_now env0 = 7" "env_now env1 = 9"
          "map_of [(''note'', VStr ''changed'')] ''note'' = Some (VStr ''changed'')"
          "map_of [(''note'', VStr ''changed'')] ''lastupdated'' = None"
          "map_of (snd event_c_stored) ''note'' \<noteq> Some (VStr ''changed'')"
    by code_simp+
  have "map_of (snd (last (objects ledger1))) ''created'' =
          Some (case map_of event_c ''created'' of Some v \<Rightarrow> v | None \<Rightarrow> VTime (env_now env0)) \<and>
        set (attribute table_order (attribute_append ledger1 call_c1 ''events'' (last (objects ledger1)))
               call_c1 ''events'') =
          insert (last (objects ledger1)) (set (attribute table_order ledger call_c1 ''events''))"
    using events_of_a_call
            [where c = call_c1 and st = ledger and e = env0 and kw = event_c and ?st1.0 = ledger1
               and i = "VStr ''c1''", THEN conjunct2, THEN conjunct1] c f i
    by blast
  then have b: "map_of (snd event_c_stored) ''created'' = Some (VTime 7) \<and>
        set (attribute table_order (attribute_append ledger1 call_c1 ''events'' event_c_stored)
               call_c1 ''events'') = {event_old, event_new, event_c_stored}"
    by (auto simp: a l k)
  have "(EventModel, updated_row env1 EventModel (snd event_c_stored) [(''note'', VStr ''changed'')])
          \<in> set (objects ledger2) \<and>
        map_of (updated_row env1 EventModel (snd event_c_stored) [(''note'', VStr ''changed'')]) ''note'' =
          Some (VStr ''changed'') \<and>
        map_of (updated_row env1 EventModel (snd event_c_stored) [(''note'', VStr ''changed'')])
          ''lastupdated'' =
          Some (case map_of [(''note'', VStr ''changed'')] ''lastupdated'' of
                  Some w \<Rightarrow> w | None \<Rightarrow> VTime (env_now env1))"
    using events_of_a_call
            [where e = env1 and st = ledger1 and ?st2.0 = ledger2 and r = "snd event_c_stored"
               and ch = "[(''note'', VStr ''changed'')]" and v = "VStr ''changed''",
             THEN conjunct2, THEN conjunct2] u k(4,6)
    by blast
  with b c u k show ?thesis by simp
qed

subsection \<open>What a deletion reaches\<close>

lemma closure_mono: "set seen \<subseteq> set (cascade_closure st todo seen)"
  by (induction st todo seen rule: cascade_closure.induct) auto

lemma closure_todo:
  "x \<in> set todo \<Longrightarrow> x \<in> set (objects st) \<Longrightarrow> x \<in> set (cascade_closure st todo seen)"
proof (induction st todo seen rule: cascade_closure.induct)
  case (1 st seen)
  then show ?case by simp
next
  case (2 st y todo seen)
  show ?case
  proof (cases "y \<in> set seen \<or> y \<notin> set (objects st)")
    case True
    show ?thesis
    proof (cases "x = y")
      case True
      with \<open>y \<in> set seen \<or> y \<notin> set (objects st)\<close> "2.prems" have "x \<in> set seen" by auto
      then show ?thesis using closure_mono by blast
    next
      case False
      with "2.prems" have "x \<in> set todo" by simp
      with True "2.IH"(1) "2.prems" show ?thesis by simp
    qed
  next
    case False
    show ?thesis
    proof (cases "x = y")
      case True
      have "y \<in> set (cascade_closure st (cascade_targets st y @ todo) (y # seen))"
        using closure_mono [of "y # seen"] by auto
      with True False show ?thesis by simp
    next
      case neq: False
      with "2.prems" have "x \<in> set (cascade_targets st y @ todo)" by simp
      with False "2.IH"(2) "2.prems" show ?thesis by simp
    qed
  qed
qed

lemma closure_closed:
  "\<forall>y \<in> set seen. \<forall>z \<in> set (cascade_targets st y). z \<in> set (objects st) \<longrightarrow> z \<in> set seen \<union> set todo \<Longrightarrow>
   \<forall>y \<in> set (cascade_closure st todo seen). \<forall>z \<in> set (cascade_targets st y).
      z \<in> set (objects st) \<longrightarrow> z \<in> set (cascade_closure st todo seen)"
proof (induction st todo seen rule: cascade_closure.induct)
  case (1 st seen)
  then show ?case by simp
next
  case (2 st x todo seen)
  show ?case
  proof (cases "x \<in> set seen \<or> x \<notin> set (objects st)")
    case True
    have "\<forall>y \<in> set seen. \<forall>z \<in> set (cascade_targets st y).
            z \<in> set (objects st) \<longrightarrow> z \<in> set seen \<union> set todo"
      using "2.prems" True by auto
    with "2.IH"(1) True show ?thesis by simp
  next
    case False
    have "\<forall>y \<in> set (x # seen). \<forall>z \<in> set (cascade_targets st y).
            z \<in> set (objects st) \<longrightarrow> z \<in> set (x # seen) \<union> set (cascade_targets st x @ todo)"
      using "2.prems" by auto
    with "2.IH"(2) False show ?thesis by simp
  qed
qed

lemma targets_in_store: "z \<in> set (cascade_targets st y) \<Longrightarrow> z \<in> set (objects st)"
  by (auto simp: cascade_targets_def related_def db_cascade_def)

lemma closure_start: "x \<in> set (objects st) \<Longrightarrow> x \<in> set (cascade_closure st [x] [])"
  by (rule closure_todo) simp_all

lemma closure_step:
  assumes "y \<in> set (cascade_closure st [x] [])" and "z \<in> set (cascade_targets st y)"
  shows "z \<in> set (cascade_closure st [x] [])"
  using closure_closed [of "[]" st "[x]"] assms targets_in_store [OF assms(2)] by simp

lemma map_of_filter_keys:
  "map_of (filter (\<lambda>kv. fst kv \<notin> S) r) k = (if k \<in> S then None else map_of r k)"
  by (induction r) auto

lemma blank_fst: "fst (blank st gone y) = fst y"
  by (simp add: blank_def)

lemma blank_value:
  "map_of (snd (blank st gone y)) k = Some v \<Longrightarrow> map_of (snd y) k = Some v"
  by (simp add: blank_def map_of_filter_keys split: if_splits)

lemma delete_InrD:
  assumes "delete st x = Inr st'"
  shows "x \<in> set (objects st)"
    and "objects st' =
           map (blank st (cascade_closure st [x] []))
               (filter (\<lambda>y. y \<notin> set (cascade_closure st [x] [])) (objects st))"
  using assms by (auto simp: delete_def Let_def split: if_splits)

lemma deleted_object:
  assumes d: "delete st x = Inr st'" and y: "y \<in> set (objects st')"
  obtains y0 where "y0 \<in> set (objects st)" "y0 \<notin> set (cascade_closure st [x] [])"
                   "y = blank st (cascade_closure st [x] []) y0"
  using y unfolding delete_InrD(2) [OF d] by auto


subsection \<open>Deleting a socket\<close>

lemma task_cascades:
  "SocketModel_task \<in> set (filter cascades_delete (relationships SocketModel))"
  "direction SocketModel SocketModel_task = Some (MANYTOONE ''task_id'')"
  "rel_argument SocketModel_task = TaskModel"
  by code_simp+

lemma task_in_targets:
  assumes "y \<in> set (objects st)" and "fst y = TaskModel"
      and "map_of (snd y) ''id'' = Some t" and "map_of s ''task_id'' = Some t"
  shows "y \<in> set (cascade_targets st (SocketModel, s))"
proof -
  have "y \<in> set (related st (SocketModel, s) SocketModel_task)"
    using assms by (simp add: related_def joined_def task_cascades)
  with task_cascades(1) show ?thesis
    unfolding cascade_targets_def by (simp del: set_filter) blast
qed

text \<open>
  C4, as stated, fails: the cascade of \<open>SocketModel.task\<close> holds \<open>delete\<close> without any
  condition. Two sockets are bound to the same task; deleting the first deletes the task
  although the second still references it, and the second is left without a task.
\<close>

theorem shared_task_deleted_with_first_socket:
  "socket_s2 \<in> set (objects shared_task) \<and>
   map_of (snd socket_s2) ''task_id'' = map_of (snd task_t1) ''id'' \<and>
   delete shared_task socket_s1 = Inr shared_task_after"
  by code_simp

text \<open>
  C4, amended. Deleting a Socket removes the Task it references, whether or not another
  Socket still references that Task: after a deletion that succeeds, no Task with the
  identifier the socket referenced remains.
\<close>

theorem delete_socket_deletes_task:
  assumes d: "delete st (SocketModel, s) = Inr st'" and t: "map_of s ''task_id'' = Some t"
  shows "\<forall>y \<in> set (objects st'). \<not> (fst y = TaskModel \<and> map_of (snd y) ''id'' = Some t)"
proof
  fix y assume y: "y \<in> set (objects st')"
  let ?gone = "cascade_closure st [(SocketModel, s)] []"
  from d y obtain y0 where y0: "y0 \<in> set (objects st)" "y0 \<notin> set ?gone" "y = blank st ?gone y0"
    by (rule deleted_object)
  show "\<not> (fst y = TaskModel \<and> map_of (snd y) ''id'' = Some t)"
  proof
    assume a: "fst y = TaskModel \<and> map_of (snd y) ''id'' = Some t"
    with y0(3) have "fst y0 = TaskModel" "map_of (snd y0) ''id'' = Some t"
      by (auto simp: blank_fst dest: blank_value)
    with y0(1) t have "y0 \<in> set (cascade_targets st (SocketModel, s))"
      by (intro task_in_targets)
    moreover have "(SocketModel, s) \<in> set ?gone"
      using delete_InrD(1) [OF d] by (rule closure_start)
    ultimately have "y0 \<in> set ?gone" by (rule closure_step [rotated])
    with y0(2) show False by contradiction
  qed
qed

theorem delete_socket_deletes_task_witness:
  "delete shared_task (SocketModel, snd socket_s1) = Inr shared_task_after \<and>
   map_of (snd socket_s1) ''task_id'' = Some (VStr ''t1'') \<and>
   task_t1 \<notin> set (objects shared_task_after)"
proof -
  have d: "delete shared_task (SocketModel, snd socket_s1) = Inr shared_task_after" by code_simp
  have t: "map_of (snd socket_s1) ''task_id'' = Some (VStr ''t1'')" by code_simp
  have k: "fst task_t1 = TaskModel \<and> map_of (snd task_t1) ''id'' = Some (VStr ''t1'')" by code_simp
  from delete_socket_deletes_task [OF d t] k d t show ?thesis by blast
qed

subsection \<open>Deleting a processor\<close>

lemma processor_children_cascade:
  "list_all (\<lambda>m. list_ex (\<lambda>rel. cascades_delete rel \<and> rel_argument rel = m \<and> rel_primaryjoin rel = None \<and>
        direction ProcessorModel rel = Some (ONETOMANY ''processor_id'')) (relationships ProcessorModel))
     [PlugModel, SocketModel, DeploymentModel]"
  by code_simp

lemma child_in_targets:
  assumes y: "y \<in> set (objects st)" and m: "fst y \<in> {PlugModel, SocketModel, DeploymentModel}"
      and c: "map_of (snd y) ''processor_id'' = Some i" and p: "map_of p ''id'' = Some i"
  shows "y \<in> set (cascade_targets st (ProcessorModel, p))"
proof -
  from m processor_children_cascade obtain rel where
    rel: "rel \<in> set (relationships ProcessorModel)" "cascades_delete rel"
         "rel_argument rel = fst y" "rel_primaryjoin rel = None"
         "direction ProcessorModel rel = Some (ONETOMANY ''processor_id'')"
    by (auto simp: list_ex_iff)
  have "y \<in> set (related st (ProcessorModel, p) rel)"
    using y c p rel(3-5) by (simp add: related_def joined_def literals_hold_def)
  with rel(1,2) show ?thesis
    unfolding cascade_targets_def by auto
qed

lemma length_filter_le:
  "(\<And>x. x \<in> set xs \<Longrightarrow> P x \<Longrightarrow> Q x) \<Longrightarrow> length (filter P xs) \<le> length (filter Q xs)"
  by (induction xs) auto

lemma length_filter_disj:
  "(\<And>x. \<not> (P x \<and> Q x)) \<Longrightarrow>
   length (filter (\<lambda>x. P x \<or> Q x) xs) = length (filter P xs) + length (filter Q xs)"
  by (induction xs) auto

lemma length_filter_member: "x \<in> set xs \<Longrightarrow> 1 \<le> length (filter (\<lambda>y. y = x) xs)"
  by (induction xs) auto

text \<open>
  C5. After a deletion of a Processor that succeeds, no Plug, Socket or Deployment row
  that references the processor remains; the store has lost at least the N plugs, M
  sockets and K deployments of the processor and the processor itself; and, the
  processor being the only one with its identifier, no Processor row with that
  identifier remains.
\<close>

theorem delete_processor_cascades:
  assumes d: "delete st (ProcessorModel, p) = Inr st'" and i: "map_of p ''id'' = Some i"
  shows "(\<forall>y \<in> set (objects st'). fst y \<in> {PlugModel, SocketModel, DeploymentModel} \<longrightarrow>
            map_of (snd y) ''processor_id'' \<noteq> Some i) \<and>
         length (objects st') +
           (length (children PlugModel st i) + length (children SocketModel st i) +
            length (children DeploymentModel st i) + 1) \<le> length (objects st) \<and>
         ((\<forall>y \<in> set (objects st). fst y = ProcessorModel \<and> map_of (snd y) ''id'' = Some i \<longrightarrow>
              y = (ProcessorModel, p)) \<longrightarrow>
          (\<forall>y \<in> set (objects st'). \<not> (fst y = ProcessorModel \<and> map_of (snd y) ''id'' = Some i)))"
proof (intro conjI ballI impI)
  let ?x = "(ProcessorModel, p)"
  let ?gone = "cascade_closure st [?x] []"
  have x: "?x \<in> set ?gone"
    using delete_InrD(1) [OF d] by (rule closure_start)
  have child: "y \<in> set ?gone"
    if "y \<in> set (objects st)" "fst y \<in> {PlugModel, SocketModel, DeploymentModel}"
       "map_of (snd y) ''processor_id'' = Some i" for y
    using x child_in_targets [OF that i] by (rule closure_step)
  {
    fix y assume y: "y \<in> set (objects st')"
       and m: "fst y \<in> {PlugModel, SocketModel, DeploymentModel}"
    from d y obtain y0 where y0: "y0 \<in> set (objects st)" "y0 \<notin> set ?gone" "y = blank st ?gone y0"
      by (rule deleted_object)
    show "map_of (snd y) ''processor_id'' \<noteq> Some i"
    proof
      assume "map_of (snd y) ''processor_id'' = Some i"
      with y0(3) have "map_of (snd y0) ''processor_id'' = Some i" by (auto dest: blank_value)
      moreover from m y0(3) have "fst y0 \<in> {PlugModel, SocketModel, DeploymentModel}"
        by (simp add: blank_fst)
      ultimately have "y0 \<in> set ?gone" using y0(1) by (intro child)
      with y0(2) show False by contradiction
    qed
  }
  {
    fix y assume u: "\<forall>y \<in> set (objects st). fst y = ProcessorModel \<and> map_of (snd y) ''id'' = Some i \<longrightarrow> y = ?x"
       and y: "y \<in> set (objects st')"
    from d y obtain y0 where y0: "y0 \<in> set (objects st)" "y0 \<notin> set ?gone" "y = blank st ?gone y0"
      by (rule deleted_object)
    show "\<not> (fst y = ProcessorModel \<and> map_of (snd y) ''id'' = Some i)"
    proof
      assume "fst y = ProcessorModel \<and> map_of (snd y) ''id'' = Some i"
      with y0(3) have "fst y0 = ProcessorModel \<and> map_of (snd y0) ''id'' = Some i"
        by (auto simp: blank_fst dest: blank_value)
      with u y0(1) have "y0 = ?x" by blast
      with x y0(2) show False by simp
    qed
  }
  let ?P = "\<lambda>y. fst y = PlugModel \<and> map_of (snd y) ''processor_id'' = Some i"
  let ?S = "\<lambda>y. fst y = SocketModel \<and> map_of (snd y) ''processor_id'' = Some i"
  let ?D = "\<lambda>y. fst y = DeploymentModel \<and> map_of (snd y) ''processor_id'' = Some i"
  let ?X = "\<lambda>y. y = ?x"
  let ?os = "objects st"
  have "length (filter (\<lambda>y. ((?P y \<or> ?S y) \<or> ?D y) \<or> ?X y) ?os) =
          length (filter ?P ?os) + length (filter ?S ?os) + length (filter ?D ?os) +
          length (filter ?X ?os)"
    by (subst length_filter_disj, force)+ simp
  moreover have "1 \<le> length (filter ?X ?os)"
    using delete_InrD(1) [OF d] by (rule length_filter_member)
  moreover have "length (filter (\<lambda>y. ((?P y \<or> ?S y) \<or> ?D y) \<or> ?X y) ?os) \<le>
                 length (filter (\<lambda>y. y \<in> set ?gone) ?os)"
    by (rule length_filter_le) (use x child in blast)
  moreover have "length (filter (\<lambda>y. y \<in> set ?gone) ?os) + length (filter (\<lambda>y. y \<notin> set ?gone) ?os) =
                 length ?os"
    by (rule sum_length_filter_compl)
  moreover have "length (objects st') = length (filter (\<lambda>y. y \<notin> set ?gone) ?os)"
    unfolding delete_InrD(2) [OF d] by simp
  ultimately show "length (objects st') +
           (length (children PlugModel st i) + length (children SocketModel st i) +
            length (children DeploymentModel st i) + 1) \<le> length (objects st)"
    by (simp add: children_def)
qed

theorem delete_processor_cascades_witness:
  "delete plant (ProcessorModel, snd processor_p1) = Inr plant_after \<and>
   length (children PlugModel plant (VStr ''p1'')) = 1 \<and>
   length (children SocketModel plant (VStr ''p1'')) = 2 \<and>
   length (children DeploymentModel plant (VStr ''p1'')) = 1 \<and>
   length (objects plant_after) + 5 \<le> length (objects plant)"
proof -
  have d: "delete plant (ProcessorModel, snd processor_p1) = Inr plant_after" by code_simp
  have i: "map_of (snd processor_p1) ''id'' = Some (VStr ''p1'')" by code_simp
  have n: "length (children PlugModel plant (VStr ''p1'')) = 1"
          "length (children SocketModel plant (VStr ''p1'')) = 2"
          "length (children DeploymentModel plant (VStr ''p1'')) = 1"
    by code_simp+
  from delete_processor_cascades [OF d i] n d show ?thesis by simp
qed

end
